theory Spec2Isabelle
  imports Main "HOL-Library.Multiset" "HOL-Library.Sublist"
begin

section \<open>Strings\<close>

text \<open>
  Python \<open>str\<close> values are modelled as HOL strings: lists of characters whose code
  points lie below 256. Slicing and \<open>len\<close> count characters on both sides.
\<close>

text \<open>\<open>str(n)\<close> for a non-negative integer.\<close>

fun str_nat :: "nat \<Rightarrow> string" where
  "str_nat n = (if n < 10 then [''0123456789'' ! n]
                else str_nat (n div 10) @ [''0123456789'' ! (n mod 10)])"

declare str_nat.simps [simp del]

text \<open>\<open>str(i)\<close>, the text an f-string puts in place of an integer.\<close>

definition str_int :: "int \<Rightarrow> string" where
  "str_int i = (if i < 0 then ''-'' @ str_nat (nat (- i)) else str_nat (nat i))"

text \<open>\<open>sep.join(xs)\<close>.\<close>

fun join :: "string \<Rightarrow> string list \<Rightarrow> string" where
  "join sep [] = []"
| "join sep [x] = x"
| "join sep (x # y # ys) = x @ sep @ join sep (y # ys)"

text \<open>\<open>s.startswith(p)\<close>: the pattern \<open>p\<close> is matched at the head of \<open>s\<close>.\<close>

fun startswith :: "string \<Rightarrow> string \<Rightarrow> bool" where
  "startswith s [] = True"
| "startswith [] (p # ps) = False"
| "startswith (c # cs) (p # ps) = (c = p \<and> startswith cs ps)"

text \<open>\<open>needle in haystack\<close> on strings: some position of the haystack starts with the needle.\<close>

fun str_contains :: "string \<Rightarrow> string \<Rightarrow> bool" where
  "str_contains needle [] = startswith [] needle"
| "str_contains needle (c # cs) = (startswith (c # cs) needle \<or> str_contains needle cs)"

section \<open>domain.py\<close>

datatype GateStatus = PASS | FAIL | SKIPPED | BLOCKED

datatype IterationOutcome = OUTCOME_PASS | GATE_FAIL | VERIFY_FAIL

definition TRIANGULAR_PASS_MARKER :: string where
  "TRIANGULAR_PASS_MARKER = ''TRIANGULAR_PASS''"

text \<open>
  Durations are the source's floats rounded to two places; they are kept as a number of
  hundredths of a second.
\<close>

record GateResult =
  gr_name :: string
  gr_status :: GateStatus
  gr_output :: string
  gr_duration_s :: int

section \<open>pipeline.py: the command filter\<close>

definition GATE_OUTPUT_LIMIT :: nat where
  "GATE_OUTPUT_LIMIT = 500"

text \<open>
  The class \<open>\s\<close> of a Python \<open>str\<close> pattern, restricted to code points below 256:
  tab to carriage return, the four separators 28 to 31, the space, NEL and the no-break
  space.
\<close>

definition is_space :: "char \<Rightarrow> bool" where
  "is_space c = (let n = (of_char c :: nat)
                 in (9 \<le> n \<and> n \<le> 13) \<or> (28 \<le> n \<and> n \<le> 32) \<or> n = 133 \<or> n = 160)"

text \<open>The tail \<open>rm\s\<close> of the two removal alternatives.\<close>

definition rm_then_space :: "string \<Rightarrow> bool" where
  "rm_then_space t = (startswith t ''rm'' \<and>
     (case drop 2 t of [] \<Rightarrow> False | c # _ \<Rightarrow> is_space c))"

text \<open>
  One match attempt of \<open>\$\(|`|;\s*rm\s|&&\s*rm\s|>\s*/dev/\<close> at the head of \<open>s\<close>.
  The greedy \<open>\s*\<close> is always followed by a character outside \<open>\s\<close>, so taking the
  longest run of spaces loses no match.
\<close>

definition unsafe_at :: "string \<Rightarrow> bool" where
  "unsafe_at s =
     (startswith s ''$(''
      \<or> startswith s ''`''
      \<or> (startswith s '';'' \<and> rm_then_space (dropWhile is_space (drop 1 s)))
      \<or> (startswith s ''&&'' \<and> rm_then_space (dropWhile is_space (drop 2 s)))
      \<or> (startswith s ''>'' \<and> startswith (dropWhile is_space (drop 1 s)) ''/dev/''))"

text \<open>\<open>_UNSAFE_PATTERN.search(cmd)\<close>: a match attempt at every position, left to right.\<close>

fun unsafe_search :: "string \<Rightarrow> bool" where
  "unsafe_search [] = unsafe_at []"
| "unsafe_search (c # cs) = (unsafe_at (c # cs) \<or> unsafe_search cs)"

definition is_safe_command :: "string \<Rightarrow> bool" where
  "is_safe_command cmd = (\<not> unsafe_search cmd)"

section \<open>pipeline.py: running one gate\<close>

text \<open>
  An exception is kept as a value: \<open>RuntimeError\<close> and \<open>FileNotFoundError\<close> with
  their message, or any other exception with the text \<open>str(e)\<close> gives for it.
\<close>

datatype error = RuntimeError string | FileNotFoundError string | Raised string

definition str_error :: "error \<Rightarrow> string" where
  "str_error e = (case e of RuntimeError m \<Rightarrow> m | FileNotFoundError m \<Rightarrow> m | Raised m \<Rightarrow> m)"

text \<open>
  What \<open>subprocess.run\<close> does with a command: it completes with a return code and the
  two captured streams, the timeout expires, or the call raises something else.
\<close>

datatype proc_outcome =
    Completed int string string
  | TimeoutExpired
  | ProcError error

text \<open>
  What the program does to the outside, in the order it does it. The trace records the
  shell commands handed to a subprocess, the argument vectors executed, the sleeps, the
  in-process gates called, the calls of the agent runner with their prompt, the writes to
  the artifacts of the output directory, and the handling of the interrupt handlers and of
  the webhook. Calls of the logger change nothing the program reads and are left out.
\<close>

datatype artifact = FeedbackFile | MetricsFile | BlindReviewFile | DiscrepancyFile | LogFile

datatype json =
    JStr string
  | JInt int
  | JCenti int
  | JBool bool
  | JList "json list"
  | JObj "(string \<times> json) list"

text \<open>
  The prompts handed to the agent runner. Each is a fixed template of the source with
  holes; a prompt is kept as the template it comes from and the texts that fill its holes:
  the original prompt text read from the prompt file; the corrective prompt (the path of
  the prompt file, the number of the failed iteration, the feedback); the blind-review
  prompt of agent B (the context section, the path of the requirements, the changed
  files); the discrepancy prompt of agent C (the paths of the requirements and of the
  blind review).
\<close>

datatype prompt =
    OriginalPrompt string
  | FixPrompt string int string
  | BlindReviewPrompt string string string
  | DiscrepancyPrompt string string

datatype effect =
    Subprocess string
  | Exec "string list"
  | Slept int
  | CalledGate string
  | RunnerCall prompt
  | WroteText artifact string
  | Appended artifact string
  | Unlinked artifact
  | SavedJson artifact json
  | Webhook string json
  | InstalledHandlers
  | RestoredHandlers

text \<open>
  \<open>_run_gate_command\<close>. The first argument is what \<open>subprocess.run\<close> does with the
  command when it is called. The result is the pair \<open>(passed, output)\<close> and the trace.
\<close>

definition run_gate_command ::
  "(string \<Rightarrow> proc_outcome) \<Rightarrow> string \<Rightarrow> int \<Rightarrow> (bool \<times> string) \<times> effect list" where
  "run_gate_command subprocess_run cmd timeout =
     (if \<not> is_safe_command cmd
      then ((False, ''BLOCKED: command contains unsafe patterns: '' @ cmd), [])
      else (case subprocess_run cmd of
              Completed returncode out err \<Rightarrow> ((returncode = 0, out @ err), [Subprocess cmd])
            | TimeoutExpired \<Rightarrow>
                ((False, ''Command timed out after '' @ str_int timeout @ ''s: '' @ cmd),
                 [Subprocess cmd])
            | ProcError e \<Rightarrow> ((False, ''Command failed: '' @ str_error e), [Subprocess cmd])))"

text \<open>An in-process gate: calling it returns \<open>(passed, output)\<close> or raises.\<close>

type_synonym GateFunction = "unit \<Rightarrow> error + bool \<times> string"

text \<open>\<open>_run_callable_gate\<close>.\<close>

definition run_callable_gate :: "string \<Rightarrow> GateFunction \<Rightarrow> (bool \<times> string) \<times> effect list" where
  "run_callable_gate name func =
     (case func () of
        Inr r \<Rightarrow> (r, [CalledGate name])
      | Inl e \<Rightarrow> ((False, ''Gate '' @ [CHR 0x27] @ name @ [CHR 0x27] @ '' raised: '' @ str_error e),
                  [CalledGate name]))"

section \<open>pipeline.py: the two disciplines\<close>

text \<open>
  The surroundings of one gate phase: what \<open>subprocess.run\<close> does for the command gate
  at a position of the list \<open>gates\<close>, and, for the parallel discipline, the moment at
  which the future submitted at a position completes.
\<close>

record gate_world =
  proc :: "nat \<Rightarrow> string \<Rightarrow> proc_outcome"
  finish :: "nat \<Rightarrow> nat"

definition status_of :: "bool \<Rightarrow> GateStatus" where
  "status_of passed = (if passed then PASS else FAIL)"

definition mk_result :: "string \<Rightarrow> bool \<Rightarrow> string \<Rightarrow> GateResult" where
  "mk_result name passed output =
     \<lparr>gr_name = name, gr_status = status_of passed,
      gr_output = take GATE_OUTPUT_LIMIT output, gr_duration_s = 0\<rparr>"

text \<open>
  The loops of \<open>_run_gates_sequential\<close>. The state of a loop is \<open>gate_pass\<close>,
  \<open>gate_output\<close>, \<open>results\<close> and the trace; \<open>i\<close> is the position of the next command.
\<close>

type_synonym seq_state = "bool \<times> string \<times> GateResult list \<times> effect list"

fun seq_commands ::
  "gate_world \<Rightarrow> int \<Rightarrow> nat \<Rightarrow> (string \<times> string) list \<Rightarrow> seq_state \<Rightarrow> seq_state" where
  "seq_commands w timeout i [] st = st"
| "seq_commands w timeout i ((name, cmd) # rest) (gate_pass, gate_output, results, tr) =
     (if \<not> gate_pass then (gate_pass, gate_output, results, tr)
      else (case run_gate_command (proc w i) cmd timeout of
              ((passed, output), es) \<Rightarrow>
                seq_commands w timeout (Suc i) rest
                  (if passed
                   then (gate_pass, gate_output, results @ [mk_result name passed output], tr @ es)
                   else (False, name @ '' ('' @ cmd @ '') FAILED:\<newline>'' @ output,
                         results @ [mk_result name passed output], tr @ es))))"

fun seq_callables :: "(string \<times> GateFunction) list \<Rightarrow> seq_state \<Rightarrow> seq_state" where
  "seq_callables [] st = st"
| "seq_callables ((cname, cfunc) # rest) (gate_pass, gate_output, results, tr) =
     (if \<not> gate_pass then (gate_pass, gate_output, results, tr)
      else (case run_callable_gate cname cfunc of
              ((passed, output), es) \<Rightarrow>
                seq_callables rest
                  (if passed
                   then (gate_pass, gate_output,
                         results @ [mk_result (''callable:'' @ cname) passed output], tr @ es)
                   else (False, ''callable:'' @ cname @ '' FAILED:\<newline>'' @ output,
                         results @ [mk_result (''callable:'' @ cname) passed output], tr @ es))))"

type_synonym gates_result = "(bool \<times> string \<times> GateResult list) \<times> effect list"

definition run_gates_sequential ::
  "gate_world \<Rightarrow> (string \<times> string) list \<Rightarrow> (string \<times> GateFunction) list \<Rightarrow> int \<Rightarrow> gates_result" where
  "run_gates_sequential w gates callable_gates timeout =
     (case seq_callables callable_gates (seq_commands w timeout 0 gates (True, [], [], [])) of
        (gate_pass, gate_output, results, tr) \<Rightarrow> ((gate_pass, gate_output, results), tr))"

text \<open>
  \<open>_run_gates_parallel\<close>. The futures are submitted in the order of \<open>gates\<close>, then of
  \<open>callable_gates\<close>, each under the name \<open>future_map\<close> keeps for it. \<open>as_completed\<close>
  yields them by the moment they complete.
\<close>

type_synonym future = "string \<times> (bool \<times> string) \<times> effect list"

definition submit_all ::
  "gate_world \<Rightarrow> (string \<times> string) list \<Rightarrow> (string \<times> GateFunction) list \<Rightarrow> int \<Rightarrow> future list" where
  "submit_all w gates callable_gates timeout =
     map (\<lambda>(i, name, cmd). (name, run_gate_command (proc w i) cmd timeout)) (enumerate 0 gates)
     @ map (\<lambda>(cname, cfunc). (''callable:'' @ cname, run_callable_gate cname cfunc)) callable_gates"

definition as_completed :: "gate_world \<Rightarrow> future list \<Rightarrow> future list" where
  "as_completed w futures = map (\<lambda>i. futures ! i) (sort_key (finish w) [0..<length futures])"

type_synonym par_state = "GateResult list \<times> string list \<times> effect list"

fun par_collect :: "future list \<Rightarrow> par_state \<Rightarrow> par_state" where
  "par_collect [] st = st"
| "par_collect ((name, (passed, output), es) # rest) (results, failures, tr) =
     par_collect rest
       (results @ [mk_result name passed output],
        (if passed then failures else failures @ [name @ '' FAILED:\<newline>'' @ output]),
        tr @ es)"

definition run_gates_parallel ::
  "gate_world \<Rightarrow> (string \<times> string) list \<Rightarrow> (string \<times> GateFunction) list \<Rightarrow> int \<Rightarrow> gates_result" where
  "run_gates_parallel w gates callable_gates timeout =
     (case par_collect (as_completed w (submit_all w gates callable_gates timeout)) ([], [], []) of
        (results, failures, tr) \<Rightarrow>
          (if failures \<noteq> [] then ((False, join ''\<newline>\<newline>'' failures, results), tr)
           else ((True, [], results), tr)))"

text \<open>\<open>_run_quality_gates\<close>.\<close>

definition run_quality_gates ::
  "gate_world \<Rightarrow> (string \<times> string) list \<Rightarrow> (string \<times> GateFunction) list \<Rightarrow> bool \<Rightarrow> int
     \<Rightarrow> gates_result" where
  "run_quality_gates w gates callable_gates use_parallel timeout =
     (if length gates + length callable_gates = 0 then ((True, [], []), [])
      else if use_parallel then run_gates_parallel w gates callable_gates timeout
      else run_gates_sequential w gates callable_gates timeout)"

section \<open>runner.py\<close>

text \<open>
  \<open>CliClaudeRunner.run\<close>. The first argument is what \<open>subprocess.run\<close> does at an
  attempt, given the argument vector and the timeout. The loop runs over the attempt
  numbers \<open>range(1, max_retries + 1)\<close>; when they are used up, the \<open>raise\<close> after the
  loop is reached.
\<close>

definition claude_argv :: "string \<Rightarrow> string list" where
  "claude_argv prompt_text = [''claude'', ''--print'', ''-p'', prompt_text]"

fun run_attempts ::
  "(int \<Rightarrow> string list \<Rightarrow> int \<Rightarrow> proc_outcome) \<Rightarrow> string \<Rightarrow> int \<Rightarrow> int \<Rightarrow> int list
     \<Rightarrow> (error + string) \<times> effect list" where
  "run_attempts subprocess_run prompt_text timeout max_retries [] =
     (Inl (RuntimeError (''claude failed after '' @ str_int max_retries @ '' attempts'')), [])"
| "run_attempts subprocess_run prompt_text timeout max_retries (attempt # rest) =
     (let backoff = (if attempt < max_retries then [Slept (2 ^ nat attempt)] else []);
          again = (case run_attempts subprocess_run prompt_text timeout max_retries rest of
                     (r, tr) \<Rightarrow> (r, Exec (claude_argv prompt_text) # backoff @ tr))
      in case subprocess_run attempt (claude_argv prompt_text) timeout of
           Completed returncode out err \<Rightarrow>
             (if returncode = 0 then (Inr out, [Exec (claude_argv prompt_text)]) else again)
         | TimeoutExpired \<Rightarrow> again
         | ProcError (FileNotFoundError m) \<Rightarrow>
             (Inl (RuntimeError
                (CHR 0x27 # ''claude'' @ CHR 0x27 # '' CLI not found in PATH. Install Claude Code first.'')),
              [Exec (claude_argv prompt_text)])
         | ProcError e \<Rightarrow> (Inl e, [Exec (claude_argv prompt_text)]))"

definition CliClaudeRunner_run ::
  "(int \<Rightarrow> string list \<Rightarrow> int \<Rightarrow> proc_outcome) \<Rightarrow> string \<Rightarrow> int \<Rightarrow> int
     \<Rightarrow> (error + string) \<times> effect list" where
  "CliClaudeRunner_run subprocess_run prompt_text timeout max_retries =
     run_attempts subprocess_run prompt_text timeout max_retries [1..max_retries]"

text \<open>
  The protocol \<open>ClaudeRunner\<close>: what one call \<open>run(prompt, timeout, max_retries)\<close> of
  some runner does, returning the output or raising.
\<close>

type_synonym ClaudeRunner = "prompt \<Rightarrow> int \<Rightarrow> int \<Rightarrow> error + string"

section \<open>detect.py: the configuration the core reads\<close>

record ProjectConfig =
  project_type :: string
  src_dirs :: string
  lint_cmd :: string
  test_cmd :: string
  security_cmd :: string
  instruction_files :: "string list"
  design_docs :: "string list"
  changed_files :: "string list"
  base_branch :: string

section \<open>verify.py\<close>

text \<open>
  The text artifacts of the output directory that the program reads back: a file that
  exists has a text. Writing and reading a text file are taken to be exact.
\<close>

type_synonym files = "artifact \<Rightarrow> string option"

definition context_section :: "ProjectConfig \<Rightarrow> string" where
  "context_section cfg =
     join ''\<newline>''
       ((if instruction_files cfg \<noteq> []
         then [''Project rules/conventions: '' @ join '' '' (instruction_files cfg)] else [])
        @ (if design_docs cfg \<noteq> []
           then [''Design documents: '' @ join '' '' (design_docs cfg)] else []))"

definition changed_section :: "ProjectConfig \<Rightarrow> string" where
  "changed_section cfg = join ''\<newline>'' (changed_files cfg)"

text \<open>
  \<open>run_triangular_verification\<close>. \<open>run_b\<close> and \<open>run_c\<close> are what the runner does at
  its call for agent B and at its call for agent C. The result is the value returned or
  the exception raised, the files and the trace.
\<close>

definition run_triangular_verification ::
  "ClaudeRunner \<Rightarrow> ClaudeRunner \<Rightarrow> string \<Rightarrow> string \<Rightarrow> ProjectConfig \<Rightarrow> int \<Rightarrow> int \<Rightarrow> files
     \<Rightarrow> (error + bool) \<times> files \<times> effect list" where
  "run_triangular_verification run_b run_c requirements_file output_dir cfg timeout max_retries fs =
     (let blind_review_file = output_dir @ ''/blind-review.md'';
          agent_b_prompt = BlindReviewPrompt (context_section cfg) requirements_file (changed_section cfg)
      in case run_b agent_b_prompt timeout max_retries of
           Inl e \<Rightarrow> (Inl e, fs, [RunnerCall agent_b_prompt])
         | Inr output_b \<Rightarrow>
             (let fs1 = fs(BlindReviewFile \<mapsto> output_b);
                  agent_c_prompt = DiscrepancyPrompt requirements_file blind_review_file
              in case run_c agent_c_prompt timeout max_retries of
                   Inl e \<Rightarrow>
                     (Inl e, fs1,
                      [RunnerCall agent_b_prompt, WroteText BlindReviewFile output_b,
                       RunnerCall agent_c_prompt])
                 | Inr output_c \<Rightarrow>
                     (let fs2 = fs1(DiscrepancyFile \<mapsto> output_c);
                          tr = [RunnerCall agent_b_prompt, WroteText BlindReviewFile output_b,
                                RunnerCall agent_c_prompt, WroteText DiscrepancyFile output_c]
                      in case fs2 DiscrepancyFile of
                           None \<Rightarrow> (Inl (FileNotFoundError (output_dir @ ''/discrepancy-report.md'')), fs2, tr)
                         | Some report_text \<Rightarrow>
                             (Inr (str_contains TRIANGULAR_PASS_MARKER report_text), fs2, tr))))"

section \<open>domain.py: the metrics records\<close>

record IterationMetrics =
  im_iteration :: int
  im_duration_s :: int
  im_phase1_done :: bool
  im_gate_results :: "GateResult list"
  im_verification_status :: GateStatus
  im_outcome :: "IterationOutcome option"

record PipelineMetrics =
  pm_started_at :: string
  pm_ended_at :: string
  pm_total_duration_s :: int
  pm_total_iterations :: int
  pm_converged :: bool
  pm_iterations :: "IterationMetrics list"

fun GateStatus_value :: "GateStatus \<Rightarrow> string" where
  "GateStatus_value PASS = ''pass''"
| "GateStatus_value FAIL = ''fail''"
| "GateStatus_value SKIPPED = ''skipped''"
| "GateStatus_value BLOCKED = ''blocked''"

fun IterationOutcome_value :: "IterationOutcome \<Rightarrow> string" where
  "IterationOutcome_value OUTCOME_PASS = ''pass''"
| "IterationOutcome_value GATE_FAIL = ''gate_fail''"
| "IterationOutcome_value VERIFY_FAIL = ''verify_fail''"

text \<open>\<open>IterationMetrics._gate_status\<close>: the status of the first result of that name.\<close>

fun gate_status :: "GateResult list \<Rightarrow> string \<Rightarrow> string" where
  "gate_status [] name = GateStatus_value SKIPPED"
| "gate_status (g # gs) name =
     (if gr_name g = name then GateStatus_value (gr_status g) else gate_status gs name)"

definition plugin_results :: "IterationMetrics \<Rightarrow> json list" where
  "plugin_results it =
     map (\<lambda>g. JObj [(''name'', JStr (gr_name g)),
                     (''result'', JStr (GateStatus_value (gr_status g))),
                     (''output'', JStr (gr_output g)),
                     (''duration_s'', JCenti (gr_duration_s g))])
       (filter (\<lambda>g. gr_name g \<noteq> ''lint'' \<and> gr_name g \<noteq> ''test'' \<and> gr_name g \<noteq> ''security'')
          (im_gate_results it))"

definition IterationMetrics_to_dict :: "IterationMetrics \<Rightarrow> json" where
  "IterationMetrics_to_dict it =
     JObj [(''iteration'', JInt (im_iteration it)),
           (''duration_s'', JCenti (im_duration_s it)),
           (''phase1_done'', JBool (im_phase1_done it)),
           (''lint_result'', JStr (gate_status (im_gate_results it) ''lint'')),
           (''test_result'', JStr (gate_status (im_gate_results it) ''test'')),
           (''security_result'', JStr (gate_status (im_gate_results it) ''security'')),
           (''plugin_results'', JList (plugin_results it)),
           (''verification_result'', JStr (GateStatus_value (im_verification_status it))),
           (''outcome'', JStr (case im_outcome it of Some oc \<Rightarrow> IterationOutcome_value oc | None \<Rightarrow> []))]"

definition PipelineMetrics_to_dict :: "PipelineMetrics \<Rightarrow> json" where
  "PipelineMetrics_to_dict m =
     JObj [(''started_at'', JStr (pm_started_at m)),
           (''ended_at'', JStr (pm_ended_at m)),
           (''total_duration_s'', JCenti (pm_total_duration_s m)),
           (''total_iterations'', JInt (pm_total_iterations m)),
           (''converged'', JBool (pm_converged m)),
           (''iterations'', JList (map IterationMetrics_to_dict (pm_iterations m)))]"

section \<open>pipeline.py: the orchestrator\<close>

text \<open>
  The arguments of \<open>run_pipeline\<close> after their defaults are resolved: \<open>a_use_parallel\<close>
  is \<open>parallel_gates\<close> or the environment's setting, \<open>a_plugins\<close> is what
  \<open>_load_plugins\<close> found, \<open>a_custom_gates\<close> is \<open>custom_gates or []\<close>, each function
  with what it does when it is called in a given iteration.
\<close>

record run_args =
  a_prompt_file :: string
  a_requirements_file :: string
  a_output_dir :: string
  a_max_iterations :: int
  a_claude_timeout :: int
  a_max_retries :: int
  a_webhook_url :: string
  a_use_parallel :: bool
  a_plugins :: "(string \<times> string) list"
  a_config :: ProjectConfig
  a_custom_gates :: "(string \<times> (int \<Rightarrow> GateFunction)) list"

datatype call_site = Phase1 | AgentB | AgentC

datatype phase = Idle | Implementing | Gating | Verifying

text \<open>
  The surroundings of a run: whether \<open>shutil.which\<close> finds the executable, what reading
  the prompt file gives, the files of the output directory at the start, what the runner
  does at each of its calls, the surroundings of each gate phase, whether an interrupt
  signal arrives while the run is in a phase of an iteration (\<open>Idle\<close>: since the end of
  the iteration before), and the readings of the clock. The handler of a signal only sets
  the shutdown flag, which the loop reads at its checks. Creating the output directory,
  the calls of the logger and failures of the file system are left out.
\<close>

record world =
  which_claude :: bool
  read_prompt :: "error + string"
  files0 :: files
  agent :: "int \<Rightarrow> call_site \<Rightarrow> ClaudeRunner"
  gate_env :: "int \<Rightarrow> gate_world"
  signal_arrives :: "int \<Rightarrow> phase \<Rightarrow> bool"
  started_at :: string
  ended_at :: string
  total_time :: int
  iter_duration :: "int \<Rightarrow> int"

text \<open>The variables of \<open>run_pipeline\<close> that change during the run, the files and the trace.\<close>

record run_state =
  st_files :: files
  st_trace :: "effect list"
  st_metrics :: PipelineMetrics
  st_shutdown :: bool
  st_converged :: bool

text \<open>How the body of the loop is left: by \<open>continue\<close>, by \<open>break\<close>, or by an exception.\<close>

datatype flow = Next | Break | Raise error

text \<open>\<open>_run_implementation_phase\<close>.\<close>

definition run_implementation_phase ::
  "run_args \<Rightarrow> world \<Rightarrow> int \<Rightarrow> run_state \<Rightarrow> error option \<times> run_state" where
  "run_implementation_phase args w iteration s =
     (case (if iteration = 1
            then (case read_prompt w of Inl e \<Rightarrow> Inl e | Inr t \<Rightarrow> Inr (OriginalPrompt t))
            else Inr (FixPrompt (a_prompt_file args) (iteration - 1)
                        (case st_files s FeedbackFile of
                           Some feedback \<Rightarrow> feedback
                         | None \<Rightarrow> ''No specific feedback available''))) of
        Inl e \<Rightarrow> (Some e, s)
      | Inr prompt_text \<Rightarrow>
          (case agent w iteration Phase1 prompt_text (a_claude_timeout args) (a_max_retries args) of
             Inl e \<Rightarrow> (Some e, s\<lparr>st_trace := st_trace s @ [RunnerCall prompt_text]\<rparr>)
           | Inr out \<Rightarrow>
               (None, s\<lparr>st_trace := st_trace s @ [RunnerCall prompt_text, Appended LogFile out]\<rparr>)))"

text \<open>The gate list built in phase 2: the built-in checks that are set, then the plugins.\<close>

definition build_gates :: "ProjectConfig \<Rightarrow> (string \<times> string) list \<Rightarrow> (string \<times> string) list" where
  "build_gates cfg plugins =
     (if lint_cmd cfg \<noteq> [] then [(''lint'', lint_cmd cfg)] else [])
     @ (if test_cmd cfg \<noteq> [] then [(''test'', test_cmd cfg)] else [])
     @ (if security_cmd cfg \<noteq> [] then [(''security'', security_cmd cfg)] else [])
     @ map (\<lambda>(plugin_name, plugin_cmd). (''plugin:'' @ plugin_name, plugin_cmd)) plugins"

definition callables_at :: "run_args \<Rightarrow> int \<Rightarrow> (string \<times> GateFunction) list" where
  "callables_at args iteration = map (\<lambda>(cname, cfunc). (cname, cfunc iteration)) (a_custom_gates args)"

definition append_iteration :: "IterationMetrics \<Rightarrow> run_state \<Rightarrow> run_state" where
  "append_iteration it s =
     s\<lparr>st_metrics := (st_metrics s)\<lparr>pm_iterations := pm_iterations (st_metrics s) @ [it]\<rparr>\<rparr>"

definition write_feedback :: "string \<Rightarrow> run_state \<Rightarrow> run_state" where
  "write_feedback t s =
     s\<lparr>st_files := (st_files s)(FeedbackFile \<mapsto> t),
       st_trace := st_trace s @ [WroteText FeedbackFile t]\<rparr>"

definition observe_signal :: "world \<Rightarrow> int \<Rightarrow> phase \<Rightarrow> run_state \<Rightarrow> run_state" where
  "observe_signal w iteration ph s = s\<lparr>st_shutdown := st_shutdown s \<or> signal_arrives w iteration ph\<rparr>"

text \<open>Phase 3 and phase 4 of the loop body: the verification, then the end of the iteration.\<close>

definition phase3_triangular_verify ::
  "run_args \<Rightarrow> world \<Rightarrow> int \<Rightarrow> IterationMetrics \<Rightarrow> run_state \<Rightarrow> flow \<times> run_state" where
  "phase3_triangular_verify args w iteration iter_metrics s =
     (case run_triangular_verification (agent w iteration AgentB) (agent w iteration AgentC)
             (a_requirements_file args) (a_output_dir args) (a_config args)
             (a_claude_timeout args) (a_max_retries args) (st_files s) of
        (Inl e, fs, es) \<Rightarrow> (Raise e, s\<lparr>st_files := fs, st_trace := st_trace s @ es\<rparr>)
      | (Inr passed, fs, es) \<Rightarrow>
          (let s1 = observe_signal w iteration Verifying (s\<lparr>st_files := fs, st_trace := st_trace s @ es\<rparr>)
           in if passed
              then (Break,
                    (append_iteration
                       (iter_metrics\<lparr>im_verification_status := PASS, im_outcome := Some OUTCOME_PASS,
                                     im_duration_s := iter_duration w iteration\<rparr>) s1)
                      \<lparr>st_files := (st_files s1)(FeedbackFile := None),
                       st_trace := st_trace s1 @ [Unlinked FeedbackFile],
                       st_converged := True\<rparr>)
              else (Next,
                    append_iteration
                      (iter_metrics\<lparr>im_verification_status := FAIL, im_outcome := Some VERIFY_FAIL,
                                    im_duration_s := iter_duration w iteration\<rparr>)
                      (write_feedback
                         (case st_files s1 DiscrepancyFile of
                            Some report \<Rightarrow> report
                          | None \<Rightarrow> ''Triangular verification failed but no discrepancy report found.'')
                         s1))))"

text \<open>Phase 2 of the loop body: the gates, then the check of the shutdown flag.\<close>

definition phase2_quality_gates ::
  "run_args \<Rightarrow> world \<Rightarrow> int \<Rightarrow> IterationMetrics \<Rightarrow> run_state \<Rightarrow> flow \<times> run_state" where
  "phase2_quality_gates args w iteration iter_metrics s =
     (case run_quality_gates (gate_env w iteration) (build_gates (a_config args) (a_plugins args))
             (callables_at args iteration) (a_use_parallel args) (a_claude_timeout args) of
        ((gate_pass, gate_output, gate_results), es) \<Rightarrow>
          (let s1 = observe_signal w iteration Gating (s\<lparr>st_trace := st_trace s @ es\<rparr>);
               im1 = iter_metrics\<lparr>im_gate_results := gate_results\<rparr>
           in if \<not> gate_pass
              then (Next,
                    append_iteration
                      (im1\<lparr>im_outcome := Some GATE_FAIL, im_duration_s := iter_duration w iteration\<rparr>)
                      (write_feedback gate_output s1))
              else if st_shutdown s1 then (Break, s1)
              else phase3_triangular_verify args w iteration im1 s1))"

text \<open>The body of the loop of \<open>run_pipeline\<close> for one value of \<open>iteration\<close>.\<close>

definition run_iteration :: "run_args \<Rightarrow> world \<Rightarrow> int \<Rightarrow> run_state \<Rightarrow> flow \<times> run_state" where
  "run_iteration args w iteration s0 =
     (let s = observe_signal w iteration Idle s0
      in if st_shutdown s then (Break, s)
         else (case run_implementation_phase args w iteration s of
                 (Some e, s1) \<Rightarrow> (Raise e, s1)
               | (None, s1) \<Rightarrow>
                   (let s2 = observe_signal w iteration Implementing s1;
                        iter_metrics = \<lparr>im_iteration = iteration, im_duration_s = 0,
                                        im_phase1_done = True, im_gate_results = [],
                                        im_verification_status = SKIPPED, im_outcome = None\<rparr>
                    in if st_shutdown s2 then (Break, s2)
                       else phase2_quality_gates args w iteration iter_metrics s2)))"

text \<open>The loop over \<open>range(1, max_iterations + 1)\<close>, left early by \<open>break\<close> or an exception.\<close>

fun iterate :: "run_args \<Rightarrow> world \<Rightarrow> int list \<Rightarrow> run_state \<Rightarrow> error option \<times> run_state" where
  "iterate args w [] s = (None, s)"
| "iterate args w (iteration # rest) s =
     (case run_iteration args w iteration s of
        (Next, s1) \<Rightarrow> iterate args w rest s1
      | (Break, s1) \<Rightarrow> (None, s1)
      | (Raise e, s1) \<Rightarrow> (Some e, s1))"

text \<open>The \<open>finally\<close> block.\<close>

definition finally_block :: "run_args \<Rightarrow> world \<Rightarrow> run_state \<Rightarrow> run_state" where
  "finally_block args w s =
     (let m = (st_metrics s)\<lparr>pm_ended_at := ended_at w,
                              pm_total_duration_s := total_time w,
                              pm_total_iterations := int (length (pm_iterations (st_metrics s))),
                              pm_converged := st_converged s\<rparr>
      in s\<lparr>st_metrics := m,
           st_trace := st_trace s
             @ [RestoredHandlers, SavedJson MetricsFile (PipelineMetrics_to_dict m)]
             @ (if a_webhook_url args \<noteq> []
                then [Webhook (a_webhook_url args)
                        (JObj [(''pipeline'', JStr ''agentic-dev-pipeline''),
                               (''converged'', JBool (st_converged s)),
                               (''iterations'', JInt (pm_total_iterations m)),
                               (''duration_s'', JCenti (total_time w))])]
                else [])\<rparr>)"

definition initial_state :: "world \<Rightarrow> run_state" where
  "initial_state w =
     \<lparr>st_files = files0 w,
      st_trace = [InstalledHandlers],
      st_metrics = \<lparr>pm_started_at = started_at w, pm_ended_at = [], pm_total_duration_s = 0,
                    pm_total_iterations = 0, pm_converged = False, pm_iterations = []\<rparr>,
      st_shutdown = False,
      st_converged = False\<rparr>"

text \<open>
  \<open>run_pipeline\<close>: the value returned or the exception that leaves it, and the final state.
\<close>

definition run_pipeline :: "run_args \<Rightarrow> world \<Rightarrow> (error + bool) \<times> run_state" where
  "run_pipeline args w =
     (if \<not> which_claude w then (Inr False, initial_state w)
      else (case iterate args w [1..a_max_iterations args] (initial_state w) of
              (exc, s1) \<Rightarrow>
                (let s2 = finally_block args w s1
                 in (case exc of Some e \<Rightarrow> (Inl e, s2) | None \<Rightarrow> (Inr (st_converged s2), s2)))))"

section \<open>The terms of the specification\<close>

subsection \<open>The gate set in declaration order\<close>

text \<open>
  The specification speaks of one ordered gate set: the command gates (built-ins, then
  plugins) followed by the in-process callables. The following definitions name a gate of
  that set, its attempt when it is the gate at position \<open>i\<close>, the name its result is
  recorded under, and the failure text of each discipline.
\<close>

datatype gate = CommandGate string string | CallableGate string GateFunction

definition declared :: "(string \<times> string) list \<Rightarrow> (string \<times> GateFunction) list \<Rightarrow> gate list" where
  "declared gates callable_gates =
     map (\<lambda>(name, cmd). CommandGate name cmd) gates
     @ map (\<lambda>(cname, cfunc). CallableGate cname cfunc) callable_gates"

fun attempt :: "gate_world \<Rightarrow> int \<Rightarrow> nat \<Rightarrow> gate \<Rightarrow> (bool \<times> string) \<times> effect list" where
  "attempt w timeout i (CommandGate name cmd) = run_gate_command (proc w i) cmd timeout"
| "attempt w timeout i (CallableGate cname cfunc) = run_callable_gate cname cfunc"

fun label :: "gate \<Rightarrow> string" where
  "label (CommandGate name cmd) = name"
| "label (CallableGate cname cfunc) = ''callable:'' @ cname"

definition passed_at :: "gate_world \<Rightarrow> int \<Rightarrow> gate list \<Rightarrow> nat \<Rightarrow> bool" where
  "passed_at w timeout gs i = fst (fst (attempt w timeout i (gs ! i)))"

definition output_at :: "gate_world \<Rightarrow> int \<Rightarrow> gate list \<Rightarrow> nat \<Rightarrow> string" where
  "output_at w timeout gs i = snd (fst (attempt w timeout i (gs ! i)))"

definition trace_at :: "gate_world \<Rightarrow> int \<Rightarrow> gate list \<Rightarrow> nat \<Rightarrow> effect list" where
  "trace_at w timeout gs i = snd (attempt w timeout i (gs ! i))"

definition result_at :: "gate_world \<Rightarrow> int \<Rightarrow> gate list \<Rightarrow> nat \<Rightarrow> GateResult" where
  "result_at w timeout gs i =
     mk_result (label (gs ! i)) (passed_at w timeout gs i) (output_at w timeout gs i)"

text \<open>The failure text the specification gives for the sequential discipline.\<close>

definition spec_sequential_text :: "string \<Rightarrow> string \<Rightarrow> string \<Rightarrow> string" where
  "spec_sequential_text name cmd output = name @ '' ('' @ cmd @ '') FAILED:\<newline>'' @ output"

text \<open>The failure text of the sequential discipline for each kind of gate.\<close>

fun sequential_text :: "gate \<Rightarrow> string \<Rightarrow> string" where
  "sequential_text (CommandGate name cmd) output = spec_sequential_text name cmd output"
| "sequential_text (CallableGate cname cfunc) output =
     ''callable:'' @ cname @ '' FAILED:\<newline>'' @ output"

text \<open>
  A sequential run told by recursion over the gate set: a failing gate ends it, a passing
  gate is followed by the run of the rest.
\<close>

fun first_failure_run :: "gate_world \<Rightarrow> int \<Rightarrow> nat \<Rightarrow> gate list \<Rightarrow> gates_result" where
  "first_failure_run w timeout i [] = ((True, [], []), [])"
| "first_failure_run w timeout i (g # gs) =
     (case attempt w timeout i g of
        ((passed, output), es) \<Rightarrow>
          (if passed
           then (case first_failure_run w timeout (Suc i) gs of
                   ((p, msg, rs), tr) \<Rightarrow> ((p, msg, mk_result (label g) passed output # rs), es @ tr))
           else ((False, sequential_text g output, [mk_result (label g) passed output]), es)))"

text \<open>The block of one failed gate in the failure text of the parallel discipline.\<close>

definition parallel_block :: "gate_world \<Rightarrow> int \<Rightarrow> gate list \<Rightarrow> nat \<Rightarrow> string" where
  "parallel_block w timeout gs i = label (gs ! i) @ '' FAILED:\<newline>'' @ output_at w timeout gs i"

text \<open>The positions of the submitted gates in the order in which they complete.\<close>

definition completion_order :: "gate_world \<Rightarrow> nat \<Rightarrow> nat list" where
  "completion_order w n = sort_key (finish w) [0..<n]"

subsection \<open>The agent runner\<close>

text \<open>An attempt that fails and may be retried: a non-zero exit code or a timeout.\<close>

definition attempt_failed :: "proc_outcome \<Rightarrow> bool" where
  "attempt_failed r = (case r of Completed returncode out err \<Rightarrow> returncode \<noteq> 0
                               | TimeoutExpired \<Rightarrow> True
                               | ProcError e \<Rightarrow> False)"

text \<open>
  The trace of \<open>k\<close> attempts: each is one execution of the agent, and each attempt before
  the last is followed by a sleep of two to the power of its number.
\<close>

definition backoff_trace :: "string \<Rightarrow> int \<Rightarrow> effect list" where
  "backoff_trace prompt_text k =
     concat (map (\<lambda>j. Exec (claude_argv prompt_text) # (if j < k then [Slept (2 ^ nat j)] else []))
                 [1..k])"

subsection \<open>The run\<close>

text \<open>The metrics documents written to the metrics artifact, in the order of the writes.\<close>

fun saved_metrics :: "effect list \<Rightarrow> json list" where
  "saved_metrics [] = []"
| "saved_metrics (SavedJson MetricsFile j # tr) = j # saved_metrics tr"
| "saved_metrics (e # tr) = saved_metrics tr"

fun json_field :: "string \<Rightarrow> json \<Rightarrow> json option" where
  "json_field k (JObj kvs) = map_of kvs k"
| "json_field k j = None"

text \<open>The calls of the runner made by the verification protocol.\<close>

fun verification_calls :: "effect list \<Rightarrow> prompt list" where
  "verification_calls [] = []"
| "verification_calls (RunnerCall (BlindReviewPrompt c r f) # tr) =
     BlindReviewPrompt c r f # verification_calls tr"
| "verification_calls (RunnerCall (DiscrepancyPrompt r b) # tr) =
     DiscrepancyPrompt r b # verification_calls tr"
| "verification_calls (e # tr) = verification_calls tr"

text \<open>The texts written to the feedback artifact.\<close>

fun feedback_writes :: "effect list \<Rightarrow> string list" where
  "feedback_writes [] = []"
| "feedback_writes (WroteText FeedbackFile t # tr) = t # feedback_writes tr"
| "feedback_writes (e # tr) = feedback_writes tr"

text \<open>The gate set of an iteration, and whether each of its gates passes there.\<close>

definition gate_set :: "run_args \<Rightarrow> int \<Rightarrow> gate list" where
  "gate_set args iteration =
     declared (build_gates (a_config args) (a_plugins args)) (callables_at args iteration)"

definition every_gate_passed :: "run_args \<Rightarrow> world \<Rightarrow> int \<Rightarrow> bool" where
  "every_gate_passed args w iteration =
     (\<forall>k < length (gate_set args iteration).
        passed_at (gate_env w iteration) (a_claude_timeout args) (gate_set args iteration) k)"

text \<open>What the verification protocol returns when it is run in an iteration.\<close>

definition verification_returns :: "run_args \<Rightarrow> world \<Rightarrow> int \<Rightarrow> error + bool" where
  "verification_returns args w iteration =
     fst (run_triangular_verification (agent w iteration AgentB) (agent w iteration AgentC)
            (a_requirements_file args) (a_output_dir args) (a_config args)
            (a_claude_timeout args) (a_max_retries args) Map.empty)"

text \<open>The state a run has reached after its first \<open>n\<close> iterations.\<close>

definition state_after :: "run_args \<Rightarrow> world \<Rightarrow> int \<Rightarrow> run_state" where
  "state_after args w n = snd (iterate args w [1..n] (initial_state w))"

text \<open>The effects a gate phase can have: running a command, calling a callable.\<close>

fun gate_effect :: "effect \<Rightarrow> bool" where
  "gate_effect (Subprocess cmd) = True"
| "gate_effect (CalledGate name) = True"
| "gate_effect e = False"

text \<open>
  Between two states, one more iteration has been recorded, with the given number and
  outcome; or nothing has been recorded.
\<close>

definition recorded :: "run_state \<Rightarrow> run_state \<Rightarrow> int \<Rightarrow> IterationOutcome \<Rightarrow> bool" where
  "recorded s s' iteration oc =
     (pm_iterations (st_metrics s') \<noteq> []
      \<and> butlast (pm_iterations (st_metrics s')) = pm_iterations (st_metrics s)
      \<and> im_iteration (last (pm_iterations (st_metrics s'))) = iteration
      \<and> im_outcome (last (pm_iterations (st_metrics s'))) = Some oc)"

definition nothing_recorded :: "run_state \<Rightarrow> run_state \<Rightarrow> bool" where
  "nothing_recorded s s' =
     (pm_iterations (st_metrics s') = pm_iterations (st_metrics s)
      \<and> st_converged s' = st_converged s)"

text \<open>The last recorded iteration has the outcome Pass.\<close>

definition last_is_pass :: "run_state \<Rightarrow> bool" where
  "last_is_pass s =
     (pm_iterations (st_metrics s) \<noteq> []
      \<and> im_outcome (last (pm_iterations (st_metrics s))) = Some OUTCOME_PASS)"

text \<open>
  In the iteration recorded last, every gate passed and the verification returned true.
\<close>

definition last_passed_all :: "run_args \<Rightarrow> world \<Rightarrow> run_state \<Rightarrow> bool" where
  "last_passed_all args w s =
     (pm_iterations (st_metrics s) \<noteq> []
      \<and> every_gate_passed args w (im_iteration (last (pm_iterations (st_metrics s))))
      \<and> verification_returns args w (im_iteration (last (pm_iterations (st_metrics s)))) = Inr True)"

subsection \<open>Concrete inputs\<close>

text \<open>
  A gate phase in which the command \<open>true\<close> exits with code 0 and every other command
  with code 1, and in which the gates complete in the reverse of their submission.
\<close>

definition example_gate_world :: gate_world where
  "example_gate_world =
     \<lparr>proc = (\<lambda>i cmd. if cmd = ''true'' then Completed 0 ''ok'' [] else Completed 1 ''bad'' []),
      finish = (\<lambda>i. 10 - i)\<rparr>"

text \<open>A gate phase in which every command prints 600 characters and exits with code 0.\<close>

definition long_output_world :: gate_world where
  "long_output_world =
     \<lparr>proc = (\<lambda>i cmd. Completed 0 (replicate 600 (CHR ''x'')) []), finish = (\<lambda>i. i)\<rparr>"

text \<open>An in-process gate that returns \<open>(False, "x")\<close>.\<close>

definition failing_callable :: GateFunction where
  "failing_callable u = Inr (False, ''x'')"

text \<open>An agent executable that exits with code 1 at its first attempt and with code 0 after.\<close>

definition fails_once :: "int \<Rightarrow> string list \<Rightarrow> int \<Rightarrow> proc_outcome" where
  "fails_once n argv timeout =
     (if n = 1 then Completed 1 [] ''err'' else Completed 0 ''ok'' [])"

text \<open>An agent executable that runs into the timeout at every attempt.\<close>

definition always_times_out :: "int \<Rightarrow> string list \<Rightarrow> int \<Rightarrow> proc_outcome" where
  "always_times_out n argv timeout = TimeoutExpired"

text \<open>A project with one failing built-in check, and the same project with no check.\<close>

definition example_config :: ProjectConfig where
  "example_config =
     \<lparr>project_type = ''python'', src_dirs = ''.'', lint_cmd = ''false'', test_cmd = [],
      security_cmd = [], instruction_files = [''CLAUDE.md''], design_docs = [],
      changed_files = [''a.py'', ''b.py''], base_branch = ''main''\<rparr>"

definition no_gates_config :: ProjectConfig where
  "no_gates_config = example_config\<lparr>lint_cmd := []\<rparr>"

text \<open>A runner whose call for agent C returns a report with the pass marker on its own line.\<close>

definition passing_agent :: "int \<Rightarrow> call_site \<Rightarrow> ClaudeRunner" where
  "passing_agent iteration site prompt_text timeout retries =
     (if site = AgentC then Inr ''## Verdict\<newline>TRIANGULAR_PASS\<newline>'' else Inr ''done'')"

text \<open>Arguments of a run with a budget of three iterations, with and without a gate.\<close>

definition example_args :: run_args where
  "example_args =
     \<lparr>a_prompt_file = ''PROMPT.md'', a_requirements_file = ''requirements.md'',
      a_output_dir = ''.agentic-dev-pipeline'', a_max_iterations = 3, a_claude_timeout = 300,
      a_max_retries = 2, a_webhook_url = [], a_use_parallel = False, a_plugins = [],
      a_config = example_config, a_custom_gates = []\<rparr>"

definition no_gates_args :: run_args where
  "no_gates_args = example_args\<lparr>a_config := no_gates_config\<rparr>"

text \<open>
  Surroundings in which the executable is found, every call of the runner returns, every
  gate command but \<open>true\<close> fails and no signal arrives.
\<close>

definition example_world :: world where
  "example_world =
     \<lparr>which_claude = True, read_prompt = Inr ''implement the feature'', files0 = Map.empty,
      agent = passing_agent, gate_env = (\<lambda>iteration. example_gate_world),
      signal_arrives = (\<lambda>iteration ph. False),
      started_at = ''2026-01-01T00:00:00'', ended_at = ''2026-01-01T00:01:00'',
      total_time = 6000, iter_duration = (\<lambda>iteration. 2000)\<rparr>"

text \<open>The same surroundings without the executable on the path.\<close>

definition world_without_claude :: world where
  "world_without_claude = example_world\<lparr>which_claude := False\<rparr>"

text \<open>The same surroundings with an interrupt arriving in the gate phase of iteration 1.\<close>

definition world_interrupted :: world where
  "world_interrupted =
     example_world\<lparr>signal_arrives := (\<lambda>iteration ph. iteration = 1 \<and> ph = Gating)\<rparr>"

text \<open>The metrics of iteration 1 as the gate phase receives them.\<close>

definition first_iteration_metrics :: IterationMetrics where
  "first_iteration_metrics =
     \<lparr>im_iteration = 1, im_duration_s = 0, im_phase1_done = True, im_gate_results = [],
      im_verification_status = SKIPPED, im_outcome = None\<rparr>"

section \<open>The sequential discipline\<close>

lemma seq_commands_stopped: "seq_commands w t i gates (False, go, rs, tr) = (False, go, rs, tr)"
  by (cases gates) auto

lemma seq_callables_stopped: "seq_callables cgs (False, go, rs, tr) = (False, go, rs, tr)"
  by (cases cgs) auto

lemma seq_commands_spec:
  "seq_commands w t i gates (True, go, rs, tr) =
     (case first_failure_run w t i (map (\<lambda>(name, cmd). CommandGate name cmd) gates) of
        ((p, msg, rs'), tr') \<Rightarrow> (p, (if p then go else msg), rs @ rs', tr @ tr'))"
proof (induction gates arbitrary: i go rs tr)
  case Nil
  then show ?case by simp
next
  case (Cons a gates)
  obtain name cmd where a: "a = (name, cmd)" by (cases a)
  obtain passed outp es where r: "run_gate_command (proc w i) cmd t = ((passed, outp), es)"
    by (metis surj_pair)
  show ?case
  proof (cases passed)
    case True
    then show ?thesis using a r Cons.IH [of "Suc i" go "rs @ [mk_result name True outp]" "tr @ es"]
      by (simp split: prod.splits)
  next
    case False
    then show ?thesis using a r by (simp add: seq_commands_stopped spec_sequential_text_def)
  qed
qed

lemma seq_callables_spec:
  "seq_callables cgs (True, go, rs, tr) =
     (case first_failure_run w t i (map (\<lambda>(cname, cfunc). CallableGate cname cfunc) cgs) of
        ((p, msg, rs'), tr') \<Rightarrow> (p, (if p then go else msg), rs @ rs', tr @ tr'))"
proof (induction cgs arbitrary: i go rs tr)
  case Nil
  then show ?case by simp
next
  case (Cons a cgs)
  obtain cname cfunc where a: "a = (cname, cfunc)" by (cases a)
  obtain passed outp es where r: "run_callable_gate cname cfunc = ((passed, outp), es)"
    by (metis surj_pair)
  show ?case
  proof (cases passed)
    case True
    then show ?thesis
      using a r Cons.IH [of go "rs @ [mk_result (''callable:'' @ cname) True outp]" "tr @ es" "Suc i"]
      by (simp split: prod.splits)
  next
    case False
    then show ?thesis using a r by (simp add: seq_callables_stopped)
  qed
qed

lemma first_failure_run_append:
  "first_failure_run w t i (xs @ ys) =
     (case first_failure_run w t i xs of
        ((p, msg, rs), tr) \<Rightarrow>
          (if p then (case first_failure_run w t (i + length xs) ys of
                        ((p', msg', rs'), tr') \<Rightarrow> ((p', msg', rs @ rs'), tr @ tr'))
           else ((p, msg, rs), tr)))"
  by (induction xs arbitrary: i) (auto split: prod.splits)

lemma first_failure_run_text_empty:
  "first_failure_run w t i gs = ((True, msg, rs), tr) \<Longrightarrow> msg = []"
  by (induction gs arbitrary: i msg rs tr) (auto split: prod.splits if_splits)

lemma run_gates_sequential_spec:
  "run_gates_sequential w gates cgs t = first_failure_run w t 0 (declared gates cgs)"
proof -
  obtain p msg rs tr
    where c: "first_failure_run w t 0 (map (\<lambda>(name, cmd). CommandGate name cmd) gates) = ((p, msg, rs), tr)"
    by (metis surj_pair)
  show ?thesis
  proof (cases p)
    case True
    with c have "msg = []" by (simp add: first_failure_run_text_empty)
    with True c show ?thesis
      by (auto simp add: run_gates_sequential_def declared_def seq_commands_spec
          first_failure_run_append seq_callables_spec [of _ _ _ _ w t "length gates"]
          split: prod.splits dest: first_failure_run_text_empty)
  next
    case False
    with c show ?thesis
      by (simp add: run_gates_sequential_def declared_def seq_commands_spec
          first_failure_run_append seq_callables_stopped)
  qed
qed

lemma first_failure_run_stops:
  assumes "\<forall>j < length pre. fst (fst (attempt w t (i + j) (pre ! j)))"
      and "\<not> fst (fst (attempt w t (i + length pre) g))"
  shows "first_failure_run w t i (pre @ g # post) =
     ((False, sequential_text g (snd (fst (attempt w t (i + length pre) g))),
       map (\<lambda>j. mk_result (label ((pre @ [g]) ! j)) (fst (fst (attempt w t (i + j) ((pre @ [g]) ! j))))
                             (snd (fst (attempt w t (i + j) ((pre @ [g]) ! j))))) [0..<Suc (length pre)]),
      concat (map (\<lambda>j. snd (attempt w t (i + j) ((pre @ [g]) ! j))) [0..<Suc (length pre)]))"
  using assms
proof (induction pre arbitrary: i)
  case Nil
  then show ?case by (auto split: prod.splits)
next
  case (Cons a pre)
  have a: "fst (fst (attempt w t i a))" using Cons.prems(1) by fastforce
  have "\<forall>j<length pre. fst (fst (attempt w t (Suc i + j) (pre ! j)))"
    using Cons.prems(1) by fastforce
  moreover have "\<not> fst (fst (attempt w t (Suc i + length pre) g))" using Cons.prems(2) by simp
  ultimately have IH: "first_failure_run w t (Suc i) (pre @ g # post) = ((False, sequential_text g (snd (fst (attempt w t (Suc i + length pre) g))),
       map (\<lambda>j. mk_result (label ((pre @ [g]) ! j)) (fst (fst (attempt w t (Suc i + j) ((pre @ [g]) ! j))))
                             (snd (fst (attempt w t (Suc i + j) ((pre @ [g]) ! j))))) [0..<Suc (length pre)]),
      concat (map (\<lambda>j. snd (attempt w t (Suc i + j) ((pre @ [g]) ! j))) [0..<Suc (length pre)]))"
    by (rule Cons.IH)
  have upt: "[0..<Suc (Suc (length pre))] = 0 # map Suc [0..<Suc (length pre)]"
    by (metis map_Suc_upt upt_conv_Cons zero_less_Suc)
  show ?case using a
    apply (simp only: append_Cons first_failure_run.simps IH)
    apply (simp only: upt length_Cons)
    apply (auto simp add: o_def split: prod.splits)
    done
qed

lemma first_failure_run_all_pass:
  assumes "\<forall>j < length gs. fst (fst (attempt w t (i + j) (gs ! j)))"
  shows "first_failure_run w t i gs =
     ((True, [],
       map (\<lambda>j. mk_result (label (gs ! j)) (fst (fst (attempt w t (i + j) (gs ! j))))
                             (snd (fst (attempt w t (i + j) (gs ! j))))) [0..<length gs]),
      concat (map (\<lambda>j. snd (attempt w t (i + j) (gs ! j))) [0..<length gs]))"
  using assms
proof (induction gs arbitrary: i)
  case Nil
  then show ?case by simp
next
  case (Cons a gs)
  have a: "fst (fst (attempt w t i a))" using Cons.prems(1) by fastforce
  have "\<forall>j<length gs. fst (fst (attempt w t (Suc i + j) (gs ! j)))"
    using Cons.prems(1) by fastforce
  then have IH: "first_failure_run w t (Suc i) gs =
     ((True, [],
       map (\<lambda>j. mk_result (label (gs ! j)) (fst (fst (attempt w t (Suc i + j) (gs ! j))))
                             (snd (fst (attempt w t (Suc i + j) (gs ! j))))) [0..<length gs]),
      concat (map (\<lambda>j. snd (attempt w t (Suc i + j) (gs ! j))) [0..<length gs]))"
    by (rule Cons.IH)
  have upt: "[0..<Suc (length gs)] = 0 # map Suc [0..<length gs]"
    by (metis map_Suc_upt upt_conv_Cons zero_less_Suc)
  show ?case using a
    apply (simp only: first_failure_run.simps IH)
    apply (simp only: upt length_Cons)
    apply (auto simp add: o_def split: prod.splits)
    done
qed

text \<open>
  Claim C3, as amended. Under the sequential discipline the gates run in declaration
  order: the command gates (built-ins, then plugins), then the callables. When the gates
  before a position all pass and the gate at that position fails, the run stops there: it
  returns failure, the results and the trace are those of the gates up to and including
  the failing one, and the failure text is that gate's alone:
  \<open><name> (<cmd>) FAILED:\<newline><output>\<close> for a command gate and
  \<open>callable:<name> FAILED:\<newline><output>\<close> for a callable.
\<close>
theorem sequential_stops_at_first_failure:
  assumes "declared gates cgs = pre @ g # post"
      and "\<forall>j < length pre. passed_at w t (declared gates cgs) j"
      and "\<not> passed_at w t (declared gates cgs) (length pre)"
  shows "run_gates_sequential w gates cgs t =
           ((False,
             sequential_text g (output_at w t (declared gates cgs) (length pre)),
             map (result_at w t (declared gates cgs)) [0..<Suc (length pre)]),
            concat (map (trace_at w t (declared gates cgs)) [0..<Suc (length pre)]))"
proof -
  have nth_pre: "\<And>j. j < Suc (length pre) \<Longrightarrow> (pre @ g # post) ! j = (pre @ [g]) ! j"
    by (auto simp add: nth_append less_Suc_eq)
  have 1: "\<forall>j < length pre. fst (fst (attempt w t (0 + j) (pre ! j)))"
    using assms(1,2) by (simp add: passed_at_def nth_append)
  have 2: "\<not> fst (fst (attempt w t (0 + length pre) g))"
    using assms(1,3) by (simp add: passed_at_def)
  show ?thesis
    unfolding run_gates_sequential_spec assms(1) first_failure_run_stops [OF 1 2]
    using nth_pre
    by (auto simp add: result_at_def passed_at_def output_at_def trace_at_def
        intro!: arg_cong [where f = concat])
qed


theorem sequential_stops_at_first_failure_witness:
  "run_gates_sequential example_gate_world
       [(''lint'', ''true''), (''test'', ''false''), (''security'', ''false'')] [] 300 =
     ((False, ''test (false) FAILED:\<newline>bad'',
       [\<lparr>gr_name = ''lint'', gr_status = PASS, gr_output = ''ok'', gr_duration_s = 0\<rparr>,
        \<lparr>gr_name = ''test'', gr_status = FAIL, gr_output = ''bad'', gr_duration_s = 0\<rparr>]),
      [Subprocess ''true'', Subprocess ''false''])"
proof -
  let ?gates = "[(''lint'', ''true''), (''test'', ''false''), (''security'', ''false'')]"
  have safe: "is_safe_command ''true''" "is_safe_command ''false''"
    by (simp_all add: is_safe_command_def unsafe_at_def)
  have d: "declared ?gates [] =
             [CommandGate ''lint'' ''true''] @ CommandGate ''test'' ''false''
               # [CommandGate ''security'' ''false'']"
    by (simp add: declared_def)
  have p: "\<forall>j < length [CommandGate ''lint'' ''true'']. passed_at example_gate_world 300 (declared ?gates []) j"
    by (simp add: passed_at_def declared_def run_gate_command_def safe example_gate_world_def)
  have f: "\<not> passed_at example_gate_world 300 (declared ?gates []) (length [CommandGate ''lint'' ''true''])"
    by (simp add: passed_at_def declared_def run_gate_command_def safe example_gate_world_def)
  have upt: "[0..<Suc (Suc 0)] = [0, Suc 0]"
    by (simp add: upt_rec)
  show ?thesis
    unfolding sequential_stops_at_first_failure [OF d p f]
    by (simp add: upt result_at_def trace_at_def output_at_def passed_at_def declared_def
        run_gate_command_def safe example_gate_world_def spec_sequential_text_def mk_result_def
        status_of_def GATE_OUTPUT_LIMIT_def)
qed

lemma spec_sequential_text_paren: "CHR ''('' \<in> set (spec_sequential_text name cmd outp)"
  by (simp add: spec_sequential_text_def)

text \<open>
  Claim C3, as stated, fails when the failing gate is a callable: a callable has no
  command, and its failure text has no parenthesised part, which every text of the form
  \<open><name> (<cmd>) FAILED:\<newline><output>\<close> has.
\<close>

theorem sequential_callable_text_counterexample:
  "fst (snd (fst (run_gates_sequential example_gate_world [] [(''c'', failing_callable)] 300)))
     = ''callable:c FAILED:\<newline>x''
   \<and> \<not> (\<exists>name cmd outp.
          fst (snd (fst (run_gates_sequential example_gate_world [] [(''c'', failing_callable)] 300)))
            = spec_sequential_text name cmd outp)"
proof -
  have t: "fst (snd (fst (run_gates_sequential example_gate_world [] [(''c'', failing_callable)] 300)))
             = ''callable:c FAILED:\<newline>x''"
    by (simp add: run_gates_sequential_def run_callable_gate_def failing_callable_def)
  have "CHR ''('' \<notin> set ''callable:c FAILED:\<newline>x''" by simp
  then have "\<not> (\<exists>name cmd outp. ''callable:c FAILED:\<newline>x'' = spec_sequential_text name cmd outp)"
    using spec_sequential_text_paren by metis
  with t show ?thesis by simp
qed

section \<open>The parallel discipline\<close>

text \<open>The loop over the completed futures, in closed form.\<close>

lemma par_collect_eq:
  "par_collect futs (rs, fl, tr) =
     (rs @ map (\<lambda>(name, (passed, outp), es). mk_result name passed outp) futs,
      fl @ map (\<lambda>(name, (passed, outp), es). name @ '' FAILED:\<newline>'' @ outp)
             (filter (\<lambda>(name, (passed, outp), es). \<not> passed) futs),
      tr @ concat (map (\<lambda>(name, (passed, outp), es). es) futs))"
  by (induction futs arbitrary: rs fl tr) auto

lemma length_declared [simp]: "length (declared gates cgs) = length gates + length cgs"
  by (simp add: declared_def)

lemma submit_all_eq:
  "submit_all w gates cgs t =
     map (\<lambda>i. (label (declared gates cgs ! i), attempt w t i (declared gates cgs ! i)))
         [0..<length (declared gates cgs)]"
proof (rule nth_equalityI)
  show "length (submit_all w gates cgs t) =
        length (map (\<lambda>i. (label (declared gates cgs ! i), attempt w t i (declared gates cgs ! i)))
                    [0..<length (declared gates cgs)])"
    by (simp add: submit_all_def)
next
  fix i assume "i < length (submit_all w gates cgs t)"
  then have i: "i < length gates + length cgs" by (simp add: submit_all_def)
  show "submit_all w gates cgs t ! i =
        map (\<lambda>i. (label (declared gates cgs ! i), attempt w t i (declared gates cgs ! i)))
            [0..<length (declared gates cgs)] ! i"
  proof (cases "i < length gates")
    case True
    then show ?thesis using i
      by (simp add: submit_all_def declared_def nth_append nth_enumerate_eq split: prod.splits)
  next
    case False
    then show ?thesis using i
      by (simp add: submit_all_def declared_def nth_append split: prod.splits)
  qed
qed

lemma set_completion_order [simp]: "set (completion_order w n) = {0..<n}"
  by (simp add: completion_order_def)

lemma as_completed_eq:
  "as_completed w (submit_all w gates cgs t) =
     map (\<lambda>i. (label (declared gates cgs ! i), attempt w t i (declared gates cgs ! i)))
         (completion_order w (length (declared gates cgs)))"
  by (simp add: as_completed_def submit_all_eq completion_order_def)

text \<open>The parallel run in closed form.\<close>

lemma run_gates_parallel_closed_form:
  "run_gates_parallel w gates cgs t =
       ((filter (\<lambda>i. \<not> passed_at w t (declared gates cgs) i)
           (completion_order w (length (declared gates cgs))) = [],
         join ''\<newline>\<newline>''
           (map (parallel_block w t (declared gates cgs))
              (filter (\<lambda>i. \<not> passed_at w t (declared gates cgs) i)
                 (completion_order w (length (declared gates cgs))))),
         map (result_at w t (declared gates cgs)) (completion_order w (length (declared gates cgs)))),
        concat (map (trace_at w t (declared gates cgs))
                  (completion_order w (length (declared gates cgs)))))"
proof -
  let ?gs = "declared gates cgs"
  let ?order = "completion_order w (length ?gs)"
  let ?fut = "\<lambda>i. (label (?gs ! i), attempt w t i (?gs ! i))"
  have res: "map (\<lambda>(name, (passed, outp), es). mk_result name passed outp) (map ?fut ?order)
             = map (result_at w t ?gs) ?order"
    by (simp add: result_at_def passed_at_def output_at_def split_beta)
  have tr: "concat (map (\<lambda>(name, (passed, outp), es). es) (map ?fut ?order))
             = concat (map (trace_at w t ?gs) ?order)"
    by (simp add: trace_at_def [abs_def] split_beta o_def)
  have fl: "map (\<lambda>(name, (passed, outp), es). name @ '' FAILED:\<newline>'' @ outp)
              (filter (\<lambda>(name, (passed, outp), es). \<not> passed) (map ?fut ?order))
            = map (parallel_block w t ?gs) (filter (\<lambda>i. \<not> passed_at w t ?gs i) ?order)"
    by (simp add: parallel_block_def passed_at_def output_at_def split_beta filter_map o_def)
  show "run_gates_parallel w gates cgs t =
       ((filter (\<lambda>i. \<not> passed_at w t ?gs i) ?order = [],
         join ''\<newline>\<newline>'' (map (parallel_block w t ?gs) (filter (\<lambda>i. \<not> passed_at w t ?gs i) ?order)),
         map (result_at w t ?gs) ?order),
        concat (map (trace_at w t ?gs) ?order))"
    unfolding run_gates_parallel_def as_completed_eq par_collect_eq
    by (simp only: res tr fl append_Nil prod.case) simp
qed



text \<open>
  Claim C4. Under the parallel discipline every submitted gate, command or callable, is
  attempted and has its result collected, whatever the other gates do: the results are
  those of all the positions of the gate set, in the order of completion, which is a
  permutation of the positions. The run passes exactly when no gate failed, and the
  failure text joins the blocks \<open><name> FAILED:\<newline><output>\<close> of all the failed gates
  with two newlines.
\<close>

theorem parallel_collects_every_gate:
  "mset (completion_order w (length (declared gates cgs))) = mset [0..<length (declared gates cgs)]
   \<and> run_gates_parallel w gates cgs t =
       ((filter (\<lambda>i. \<not> passed_at w t (declared gates cgs) i)
           (completion_order w (length (declared gates cgs))) = [],
         join ''\<newline>\<newline>''
           (map (parallel_block w t (declared gates cgs))
              (filter (\<lambda>i. \<not> passed_at w t (declared gates cgs) i)
                 (completion_order w (length (declared gates cgs))))),
         map (result_at w t (declared gates cgs)) (completion_order w (length (declared gates cgs)))),
        concat (map (trace_at w t (declared gates cgs))
                  (completion_order w (length (declared gates cgs)))))"
  using run_gates_parallel_closed_form [of w gates cgs t]
  by (simp add: completion_order_def)

theorem parallel_collects_every_gate_witness:
  "run_gates_parallel example_gate_world [(''A'', ''false A''), (''B'', ''false B'')] [] 300 =
     ((False, ''B FAILED:\<newline>bad\<newline>\<newline>A FAILED:\<newline>bad'',
       [\<lparr>gr_name = ''B'', gr_status = FAIL, gr_output = ''bad'', gr_duration_s = 0\<rparr>,
        \<lparr>gr_name = ''A'', gr_status = FAIL, gr_output = ''bad'', gr_duration_s = 0\<rparr>]),
      [Subprocess ''false B'', Subprocess ''false A''])"
proof -
  have safe: "is_safe_command ''false A''" "is_safe_command ''false B''"
    by (simp_all add: is_safe_command_def unsafe_at_def)
  have order: "completion_order example_gate_world (Suc (Suc 0)) = [Suc 0, 0]"
    by (simp add: completion_order_def example_gate_world_def upt_rec)
  have len: "length (declared [(''A'', ''false A''), (''B'', ''false B'')] []) = Suc (Suc 0)"
    by (simp add: declared_def)
  show ?thesis
    using parallel_collects_every_gate
            [of example_gate_world "[(''A'', ''false A''), (''B'', ''false B'')]" "[]" 300]
    unfolding len order
    by (simp add: result_at_def trace_at_def output_at_def passed_at_def parallel_block_def
        declared_def run_gate_command_def safe example_gate_world_def mk_result_def
        status_of_def GATE_OUTPUT_LIMIT_def)
qed

section \<open>The command filter and the stored output\<close>

text \<open>
  The pattern is found in every command that holds one of its five forms, wherever it
  stands: \<open>$(\<close>; a backtick; \<open>;\<close> or \<open>&&\<close>, any run of spaces, \<open>rm\<close> and a space;
  \<open>>\<close>, any run of spaces and \<open>/dev/\<close>.
\<close>

lemma unsafe_search_found: "unsafe_at s \<Longrightarrow> unsafe_search (pre @ s)"
proof (induction pre)
  case Nil
  then show ?case by (cases s) auto
next
  case (Cons c pre)
  then show ?case by simp
qed

lemma dropWhile_spaces:
  "\<forall>x \<in> set ws. is_space x \<Longrightarrow> \<not> is_space c \<Longrightarrow> dropWhile is_space (ws @ c # rest) = c # rest"
  by (induction ws) auto

lemma unsafe_forms:
  "unsafe_search (pre @ ''$('' @ post)"
  "unsafe_search (pre @ ''`'' @ post)"
  "\<forall>x \<in> set ws. is_space x \<Longrightarrow> is_space c \<Longrightarrow> unsafe_search (pre @ '';'' @ ws @ ''rm'' @ c # post)"
  "\<forall>x \<in> set ws. is_space x \<Longrightarrow> is_space c \<Longrightarrow> unsafe_search (pre @ ''&&'' @ ws @ ''rm'' @ c # post)"
  "\<forall>x \<in> set ws. is_space x \<Longrightarrow> unsafe_search (pre @ ''>'' @ ws @ ''/dev/'' @ post)"
proof -
  have r: "\<not> is_space CHR ''r''" and s: "\<not> is_space CHR ''/''"
    by (simp_all add: is_space_def)
  show "unsafe_search (pre @ ''$('' @ post)"
    by (rule unsafe_search_found) (simp add: unsafe_at_def)
  show "unsafe_search (pre @ ''`'' @ post)"
    by (rule unsafe_search_found) (simp add: unsafe_at_def)
  show "unsafe_search (pre @ '';'' @ ws @ ''rm'' @ c # post)"
    if "\<forall>x \<in> set ws. is_space x" "is_space c"
    using that dropWhile_spaces [OF that(1) r, of "CHR ''m'' # c # post"]
    by (intro unsafe_search_found) (simp add: unsafe_at_def rm_then_space_def)
  show "unsafe_search (pre @ ''&&'' @ ws @ ''rm'' @ c # post)"
    if "\<forall>x \<in> set ws. is_space x" "is_space c"
    using that dropWhile_spaces [OF that(1) r, of "CHR ''m'' # c # post"]
    by (intro unsafe_search_found) (simp add: unsafe_at_def rm_then_space_def)
  show "unsafe_search (pre @ ''>'' @ ws @ ''/dev/'' @ post)"
    if "\<forall>x \<in> set ws. is_space x"
    using that dropWhile_spaces [OF that s, of "''dev/'' @ post"]
    by (intro unsafe_search_found) (simp add: unsafe_at_def)
qed


text \<open>
  Claim C5. A shell command in which the unsafe pattern is found is never handed to a
  subprocess, whatever running it would do: the trace of the gate is empty, and the gate
  fails with the output \<open>BLOCKED: command contains unsafe patterns: <cmd>\<close>.
\<close>

theorem unsafe_command_blocked:
  assumes "unsafe_search cmd"
  shows "run_gate_command subprocess_run cmd t =
           ((False, ''BLOCKED: command contains unsafe patterns: '' @ cmd), [])"
  using assms by (simp add: run_gate_command_def is_safe_command_def)

theorem unsafe_command_blocked_witness:
  "unsafe_search ''echo `rm -rf /`''
   \<and> run_gate_command (proc example_gate_world 0) ''echo `rm -rf /`'' 300 =
       ((False, ''BLOCKED: command contains unsafe patterns: echo `rm -rf /`''), [])"
proof -
  have u: "unsafe_search ''echo `rm -rf /`''"
    by (simp add: unsafe_at_def)
  show ?thesis
    using u unsafe_command_blocked [OF u, of "proc example_gate_world 0" 300] by simp
qed

lemma first_failure_run_results:
  "r \<in> set (snd (snd (fst (first_failure_run w t i gs)))) \<Longrightarrow>
     \<exists>j < length gs. r = mk_result (label (gs ! j)) (fst (fst (attempt w t (i + j) (gs ! j))))
                                   (snd (fst (attempt w t (i + j) (gs ! j))))"
proof (induction gs arbitrary: i)
  case Nil
  then show ?case by simp
next
  case (Cons g gs)
  obtain passed outp es where a: "attempt w t i g = ((passed, outp), es)"
    by (metis surj_pair)
  have here: "r = mk_result (label g) passed outp \<Longrightarrow> ?case"
    using a by (intro exI [of _ 0]) simp
  have later: "r \<in> set (snd (snd (fst (first_failure_run w t (Suc i) gs)))) \<Longrightarrow> ?case"
  proof -
    assume "r \<in> set (snd (snd (fst (first_failure_run w t (Suc i) gs))))"
    from Cons.IH [OF this] obtain j where "j < length gs"
      and "r = mk_result (label (gs ! j)) (fst (fst (attempt w t (Suc i + j) (gs ! j))))
                                   (snd (fst (attempt w t (Suc i + j) (gs ! j))))"
      by blast
    then show ?case by (intro exI [of _ "Suc j"]) simp
  qed
  show ?case
  proof (cases passed)
    case True
    with a Cons.prems
    have "r = mk_result (label g) passed outp
            \<or> r \<in> set (snd (snd (fst (first_failure_run w t (Suc i) gs))))"
      by (auto split: prod.splits)
    then show ?thesis using here later by blast
  next
    case False
    with a Cons.prems have "r = mk_result (label g) passed outp" by auto
    then show ?thesis by (rule here)
  qed
qed

lemma run_quality_gates_results:
  assumes "r \<in> set (snd (snd (fst (run_quality_gates w gates cgs par t))))"
  shows "\<exists>k < length (declared gates cgs). r = result_at w t (declared gates cgs) k"
proof (cases "length gates + length cgs = 0")
  case True
  with assms show ?thesis by (simp add: run_quality_gates_def)
next
  case False
  show ?thesis
  proof (cases par)
    case True
    with False have "run_quality_gates w gates cgs par t = run_gates_parallel w gates cgs t"
      by (auto simp add: run_quality_gates_def)
    with assms
    have "r \<in> result_at w t (declared gates cgs) ` set (completion_order w (length (declared gates cgs)))"
      by (simp add: run_gates_parallel_closed_form)
    then show ?thesis by auto
  next
    case p: False
    with False have "run_quality_gates w gates cgs par t = run_gates_sequential w gates cgs t"
      by (auto simp add: run_quality_gates_def)
    with assms
    have "r \<in> set (snd (snd (fst (first_failure_run w t 0 (declared gates cgs)))))"
      by (simp add: run_gates_sequential_spec)
    from first_failure_run_results [OF this] show ?thesis
      by (simp add: result_at_def passed_at_def output_at_def)
  qed
qed

text \<open>
  Claim C8. Whatever the discipline, each result of a gate phase is the result of a gate
  of the gate set, and the output stored in it is the first 500 characters of the output
  captured for that gate: it has at most 500 characters.
\<close>

theorem gate_output_bounded:
  "\<forall>r \<in> set (snd (snd (fst (run_quality_gates w gates cgs par t)))).
     length (gr_output r) \<le> 500
     \<and> (\<exists>k < length (declared gates cgs).
           gr_name r = label (declared gates cgs ! k)
         \<and> gr_output r = take 500 (output_at w t (declared gates cgs) k))"
proof
  fix r assume "r \<in> set (snd (snd (fst (run_quality_gates w gates cgs par t))))"
  from run_quality_gates_results [OF this]
  obtain k where "k < length (declared gates cgs)" "r = result_at w t (declared gates cgs) k"
    by blast
  then show "length (gr_output r) \<le> 500
     \<and> (\<exists>k < length (declared gates cgs).
           gr_name r = label (declared gates cgs ! k)
         \<and> gr_output r = take 500 (output_at w t (declared gates cgs) k))"
    by (auto simp add: result_at_def mk_result_def GATE_OUTPUT_LIMIT_def)
qed

theorem gate_output_bounded_witness:
  "snd (snd (fst (run_quality_gates long_output_world [(''lint'', ''make lint'')] [] False 300)))
     = [\<lparr>gr_name = ''lint'', gr_status = PASS, gr_output = replicate 500 (CHR ''x''),
         gr_duration_s = 0\<rparr>]
   \<and> length (gr_output (hd (snd (snd (fst
          (run_quality_gates long_output_world [(''lint'', ''make lint'')] [] False 300))))))
       \<le> 500"
proof -
  have safe: "is_safe_command ''make lint''"
    by (simp add: is_safe_command_def unsafe_at_def)
  have "snd (snd (fst (run_quality_gates long_output_world [(''lint'', ''make lint'')] [] False 300)))
     = [\<lparr>gr_name = ''lint'', gr_status = PASS, gr_output = replicate 500 (CHR ''x''),
         gr_duration_s = 0\<rparr>]"
    by (simp add: run_quality_gates_def run_gates_sequential_def run_gate_command_def safe
        long_output_world_def mk_result_def status_of_def GATE_OUTPUT_LIMIT_def)
  then show ?thesis
    using gate_output_bounded [of long_output_world "[(''lint'', ''make lint'')]" "[]" False 300]
    by simp
qed

section \<open>The agent runner\<close>

lemma attempt_failed_cases:
  "attempt_failed r \<Longrightarrow> (\<exists>rc out err. r = Completed rc out err \<and> rc \<noteq> 0) \<or> r = TimeoutExpired"
  by (cases r) (auto simp add: attempt_failed_def)

lemma run_attempts_failed_step:
  assumes "attempt_failed (sp a (claude_argv p) t)"
  shows "run_attempts sp p t m (a # rest) =
           (fst (run_attempts sp p t m rest),
            Exec (claude_argv p) # (if a < m then [Slept (2 ^ nat a)] else [])
              @ snd (run_attempts sp p t m rest))"
  using attempt_failed_cases [OF assms]
  by (auto simp add: Let_def split: prod.splits)

lemma run_attempts_success:
  assumes "a \<le> k" "k \<le> m"
      and "\<forall>j. a \<le> j \<and> j < k \<longrightarrow> attempt_failed (sp j (claude_argv p) t)"
      and "sp k (claude_argv p) t = Completed 0 out err"
  shows "run_attempts sp p t m [a..m] =
           (Inr out,
            concat (map (\<lambda>j. Exec (claude_argv p) # (if j < k then [Slept (2 ^ nat j)] else []))
                        [a..k]))"
  using assms
proof (induction "nat (k - a)" arbitrary: a)
  case 0
  then have ak: "a = k" by simp
  have "[a..m] = a # [a + 1..m]" using 0 by (simp add: upto_rec1)
  then show ?case using 0 ak by (simp add: Let_def)
next
  case (Suc n)
  then have lt: "a < k" by linarith
  have am: "[a..m] = a # [a + 1..m]" using Suc.prems lt by (simp add: upto_rec1)
  have ak: "[a..k] = a # [a + 1..k]" using lt by (simp add: upto_rec1)
  have f: "attempt_failed (sp a (claude_argv p) t)" using Suc.prems lt by simp
  have IH: "run_attempts sp p t m [a + 1..m] =
           (Inr out,
            concat (map (\<lambda>j. Exec (claude_argv p) # (if j < k then [Slept (2 ^ nat j)] else []))
                        [a + 1..k]))"
  proof (rule Suc.hyps(1))
    show "n = nat (k - (a + 1))" using Suc.hyps(2) by linarith
    show "a + 1 \<le> k" using lt by simp
    show "k \<le> m" by (rule Suc.prems(2))
    show "\<forall>j. a + 1 \<le> j \<and> j < k \<longrightarrow> attempt_failed (sp j (claude_argv p) t)"
      using Suc.prems(3) by simp
    show "sp k (claude_argv p) t = Completed 0 out err" by (rule Suc.prems(4))
  qed
  have "a < m" using lt Suc.prems(2) by simp
  then show ?case
    unfolding am ak run_attempts_failed_step [of sp a p t m "[a + 1..m]", OF f] IH using lt by simp
qed

lemma run_attempts_exhausted:
  assumes "\<forall>j. a \<le> j \<and> j \<le> m \<longrightarrow> attempt_failed (sp j (claude_argv p) t)"
  shows "run_attempts sp p t m [a..m] =
           (Inl (RuntimeError (''claude failed after '' @ str_int m @ '' attempts'')),
            concat (map (\<lambda>j. Exec (claude_argv p) # (if j < m then [Slept (2 ^ nat j)] else []))
                        [a..m]))"
  using assms
proof (induction "nat (m + 1 - a)" arbitrary: a)
  case 0
  then have "[a..m] = []" by simp
  then show ?case by simp
next
  case (Suc n)
  then have le: "a \<le> m" by linarith
  have am: "[a..m] = a # [a + 1..m]" using le by (simp add: upto_rec1)
  have f: "attempt_failed (sp a (claude_argv p) t)" using Suc.prems le by simp
  have IH: "run_attempts sp p t m [a + 1..m] =
           (Inl (RuntimeError (''claude failed after '' @ str_int m @ '' attempts'')),
            concat (map (\<lambda>j. Exec (claude_argv p) # (if j < m then [Slept (2 ^ nat j)] else []))
                        [a + 1..m]))"
  proof (rule Suc.hyps(1))
    show "n = nat (m + 1 - (a + 1))" using Suc.hyps(2) by linarith
    show "\<forall>j. a + 1 \<le> j \<and> j \<le> m \<longrightarrow> attempt_failed (sp j (claude_argv p) t)"
      using Suc.prems by simp
  qed
  show ?case
    unfolding am run_attempts_failed_step [of sp a p t m "[a + 1..m]", OF f] IH by simp
qed

text \<open>
  Claim C6. An attempt fails when the agent exits with a non-zero code or runs into the
  timeout. If the attempts before attempt \<open>k\<close> fail and attempt \<open>k\<close> exits with code
  0, the runner returns the output of attempt \<open>k\<close> at once, having slept two to the
  power of \<open>j\<close> seconds after each failed attempt \<open>j\<close> and at no other moment. If all the
  attempts up to the bound fail, the runner raises the error that names the bound, having
  slept after every attempt but the last.
\<close>

theorem runner_retries_with_backoff:
  "(\<forall>k out err.
      1 \<le> k \<and> k \<le> max_tries
      \<and> (\<forall>j. 1 \<le> j \<and> j < k \<longrightarrow> attempt_failed (sp j (claude_argv p) t))
      \<and> sp k (claude_argv p) t = Completed 0 out err
      \<longrightarrow> CliClaudeRunner_run sp p t max_tries = (Inr out, backoff_trace p k))
   \<and> ((\<forall>j. 1 \<le> j \<and> j \<le> max_tries \<longrightarrow> attempt_failed (sp j (claude_argv p) t))
      \<longrightarrow> CliClaudeRunner_run sp p t max_tries =
            (Inl (RuntimeError (''claude failed after '' @ str_int max_tries @ '' attempts'')),
             backoff_trace p max_tries))"
  using run_attempts_success [of 1 _ max_tries sp p t] run_attempts_exhausted [of 1 max_tries sp p t]
  by (simp add: CliClaudeRunner_run_def backoff_trace_def)

theorem runner_retries_with_backoff_witness:
  "CliClaudeRunner_run fails_once ''p'' 300 2 =
     (Inr ''ok'', [Exec [''claude'', ''--print'', ''-p'', ''p''], Slept 2,
                   Exec [''claude'', ''--print'', ''-p'', ''p'']])
   \<and> CliClaudeRunner_run always_times_out ''p'' 300 2 =
       (Inl (RuntimeError ''claude failed after 2 attempts''),
        [Exec [''claude'', ''--print'', ''-p'', ''p''], Slept 2,
         Exec [''claude'', ''--print'', ''-p'', ''p'']])"
proof -
  have u: "[1..2::int] = [1, 2]" by (simp add: upto_rec1)
  have s: "str_int 2 = ''2''" by (simp add: str_int_def str_nat.simps)
  have b: "backoff_trace ''p'' 2 =
             [Exec [''claude'', ''--print'', ''-p'', ''p''], Slept 2,
              Exec [''claude'', ''--print'', ''-p'', ''p'']]"
    by (simp add: backoff_trace_def u claude_argv_def)
  have 1: "(1::int) \<le> 2 \<and> (2::int) \<le> 2
      \<and> (\<forall>j. 1 \<le> j \<and> j < 2 \<longrightarrow> attempt_failed (fails_once j (claude_argv ''p'') 300))
      \<and> fails_once 2 (claude_argv ''p'') 300 = Completed 0 ''ok'' []"
    by (auto simp add: fails_once_def attempt_failed_def)
  have 2: "\<forall>j. 1 \<le> j \<and> j \<le> 2 \<longrightarrow> attempt_failed (always_times_out j (claude_argv ''p'') 300)"
    by (simp add: always_times_out_def attempt_failed_def)
  from runner_retries_with_backoff [of 2 fails_once "''p''" 300] 1
  have "CliClaudeRunner_run fails_once ''p'' 300 2 = (Inr ''ok'', backoff_trace ''p'' 2)"
    by blast
  moreover from runner_retries_with_backoff [of 2 always_times_out "''p''" 300] 2
  have "CliClaudeRunner_run always_times_out ''p'' 300 2 =
          (Inl (RuntimeError (''claude failed after '' @ str_int 2 @ '' attempts'')),
           backoff_trace ''p'' 2)"
    by blast
  ultimately show ?thesis by (simp add: b s)
qed

section \<open>The verification protocol\<close>

lemma startswith_prefix: "startswith s p \<longleftrightarrow> prefix p s"
  by (induction s p rule: startswith.induct) auto

lemma str_contains_sublist: "str_contains n h \<longleftrightarrow> sublist n h"
  by (induction h) (auto simp add: startswith_prefix sublist_Cons_right)

lemma str_contains_iff: "str_contains n h \<longleftrightarrow> (\<exists>pre post. h = pre @ n @ post)"
  by (simp add: str_contains_sublist sublist_def)

text \<open>
  Claim C7. When the verification returns a boolean, the discrepancy report is the text
  agent C returned, it is the text of the discrepancy artifact, and the boolean is true
  exactly when the pass marker occurs somewhere in that text as a substring.
\<close>

theorem verification_is_substring_test:
  assumes "run_triangular_verification run_b run_c req out cfg t m fs = (Inr passed, fs', tr)"
  shows "\<exists>report.
           run_c (DiscrepancyPrompt req (out @ ''/blind-review.md'')) t m = Inr report
         \<and> fs' DiscrepancyFile = Some report
         \<and> WroteText DiscrepancyFile report \<in> set tr
         \<and> (passed \<longleftrightarrow> (\<exists>pre post. report = pre @ TRIANGULAR_PASS_MARKER @ post))"
  using assms
  by (auto simp add: run_triangular_verification_def Let_def str_contains_iff
      split: sum.splits)

text \<open>The verification returns a boolean whenever the two calls of the runner return.\<close>

lemma verification_returns_when_agents_return:
  assumes "run_b (BlindReviewPrompt (context_section cfg) req (changed_section cfg)) t m = Inr review"
      and "run_c (DiscrepancyPrompt req (out @ ''/blind-review.md'')) t m = Inr report"
  shows "run_triangular_verification run_b run_c req out cfg t m fs =
           (Inr (str_contains TRIANGULAR_PASS_MARKER report),
            fs(BlindReviewFile \<mapsto> review, DiscrepancyFile \<mapsto> report),
            [RunnerCall (BlindReviewPrompt (context_section cfg) req (changed_section cfg)),
             WroteText BlindReviewFile review,
             RunnerCall (DiscrepancyPrompt req (out @ ''/blind-review.md'')),
             WroteText DiscrepancyFile report])"
  using assms by (simp add: run_triangular_verification_def Let_def)


theorem verification_is_substring_test_witness:
  "run_triangular_verification (passing_agent 1 AgentB) (passing_agent 1 AgentC)
       ''requirements.md'' ''out'' example_config 300 2 Map.empty =
     (Inr True,
      [BlindReviewFile \<mapsto> ''done'', DiscrepancyFile \<mapsto> ''## Verdict\<newline>TRIANGULAR_PASS\<newline>''],
      [RunnerCall (BlindReviewPrompt ''Project rules/conventions: CLAUDE.md'' ''requirements.md''
                     ''a.py\<newline>b.py''),
       WroteText BlindReviewFile ''done'',
       RunnerCall (DiscrepancyPrompt ''requirements.md'' ''out/blind-review.md''),
       WroteText DiscrepancyFile ''## Verdict\<newline>TRIANGULAR_PASS\<newline>''])
   \<and> (\<exists>pre post. ''## Verdict\<newline>TRIANGULAR_PASS\<newline>'' = pre @ TRIANGULAR_PASS_MARKER @ post)"
proof -
  have h: "run_triangular_verification (passing_agent 1 AgentB) (passing_agent 1 AgentC)
       ''requirements.md'' ''out'' example_config 300 2 Map.empty =
     (Inr True,
      [BlindReviewFile \<mapsto> ''done'', DiscrepancyFile \<mapsto> ''## Verdict\<newline>TRIANGULAR_PASS\<newline>''],
      [RunnerCall (BlindReviewPrompt ''Project rules/conventions: CLAUDE.md'' ''requirements.md''
                     ''a.py\<newline>b.py''),
       WroteText BlindReviewFile ''done'',
       RunnerCall (DiscrepancyPrompt ''requirements.md'' ''out/blind-review.md''),
       WroteText DiscrepancyFile ''## Verdict\<newline>TRIANGULAR_PASS\<newline>''])"
    by (simp add: run_triangular_verification_def Let_def passing_agent_def example_config_def
        context_section_def changed_section_def TRIANGULAR_PASS_MARKER_def)
  from verification_is_substring_test [OF h]
  have "\<exists>pre post. ''## Verdict\<newline>TRIANGULAR_PASS\<newline>'' = pre @ TRIANGULAR_PASS_MARKER @ post"
    by simp
  with h show ?thesis by simp
qed

section \<open>The gate phase as a whole\<close>

lemma first_failure_run_passes_iff:
  "fst (fst (first_failure_run w t i gs)) \<longleftrightarrow>
     (\<forall>j < length gs. fst (fst (attempt w t (i + j) (gs ! j))))"
proof (induction gs arbitrary: i)
  case Nil
  then show ?case by simp
next
  case (Cons g gs)
  obtain passed outp es where a: "attempt w t i g = ((passed, outp), es)"
    by (metis surj_pair)
  have split: "(\<forall>j < length (g # gs). fst (fst (attempt w t (i + j) ((g # gs) ! j)))) \<longleftrightarrow>
        (fst (fst (attempt w t i g)) \<and> (\<forall>j < length gs. fst (fst (attempt w t (Suc i + j) (gs ! j)))))"
    by (auto simp add: less_Suc_eq_0_disj)
  show ?case
    unfolding split using a Cons.IH [of "Suc i"]
    by (auto split: prod.splits)
qed

lemma gates_pass_iff:
  "fst (fst (run_quality_gates w gates cgs par t)) \<longleftrightarrow>
     (\<forall>k < length (declared gates cgs). passed_at w t (declared gates cgs) k)"
proof (cases "length gates + length cgs = 0")
  case True
  then show ?thesis by (simp add: run_quality_gates_def)
next
  case False
  show ?thesis
  proof (cases par)
    case True
    have "fst (fst (run_gates_parallel w gates cgs t)) \<longleftrightarrow>
            (\<forall>k \<in> set (completion_order w (length (declared gates cgs))).
               passed_at w t (declared gates cgs) k)"
      using run_gates_parallel_closed_form [of w gates cgs t]
      by (simp add: filter_empty_conv)
    then show ?thesis using True False
      by (auto simp add: run_quality_gates_def)
  next
    case p: False
    show ?thesis using p False first_failure_run_passes_iff [of w t 0 "declared gates cgs"]
      by (simp add: run_quality_gates_def run_gates_sequential_spec passed_at_def)
  qed
qed

lemma attempt_gate_effects: "list_all gate_effect (snd (attempt w t i g))"
  by (cases g)
     (auto simp add: run_gate_command_def run_callable_gate_def
           split: proc_outcome.splits sum.splits)

lemma first_failure_run_gate_effects: "list_all gate_effect (snd (first_failure_run w t i gs))"
proof (induction gs arbitrary: i)
  case Nil
  then show ?case by simp
next
  case (Cons g gs)
  show ?case
    using attempt_gate_effects [of w t i g] Cons.IH [of "Suc i"]
    by (auto split: prod.splits)
qed

lemma run_quality_gates_effects: "list_all gate_effect (snd (run_quality_gates w gates cgs par t))"
proof -
  have "list_all gate_effect (snd (run_gates_parallel w gates cgs t))"
    using run_gates_parallel_closed_form [of w gates cgs t] attempt_gate_effects
    by (simp add: list_all_iff trace_at_def)
  then show ?thesis
    using first_failure_run_gate_effects [of w t 0 "declared gates cgs"]
    by (simp add: run_quality_gates_def run_gates_sequential_spec)
qed

lemma saved_metrics_append [simp]: "saved_metrics (a @ b) = saved_metrics a @ saved_metrics b"
  by (induction a rule: saved_metrics.induct) auto

lemma verification_calls_append [simp]:
  "verification_calls (a @ b) = verification_calls a @ verification_calls b"
  by (induction a rule: verification_calls.induct) auto

lemma feedback_writes_append [simp]:
  "feedback_writes (a @ b) = feedback_writes a @ feedback_writes b"
  by (induction a rule: feedback_writes.induct) auto

lemma gate_effects_silent:
  "list_all gate_effect tr \<Longrightarrow>
     saved_metrics tr = [] \<and> verification_calls tr = [] \<and> feedback_writes tr = []"
proof (induction tr)
  case Nil
  then show ?case by simp
next
  case (Cons e tr)
  then show ?case by (cases e) auto
qed


text \<open>
  The gate set of an iteration in declaration order: the built-in checks that are set,
  the plugins, then the callables.
\<close>

lemma gate_set_declaration_order:
  "gate_set args i =
     (if lint_cmd (a_config args) \<noteq> [] then [CommandGate ''lint'' (lint_cmd (a_config args))] else [])
     @ (if test_cmd (a_config args) \<noteq> [] then [CommandGate ''test'' (test_cmd (a_config args))] else [])
     @ (if security_cmd (a_config args) \<noteq> []
        then [CommandGate ''security'' (security_cmd (a_config args))] else [])
     @ map (\<lambda>(plugin_name, plugin_cmd). CommandGate (''plugin:'' @ plugin_name) plugin_cmd)
           (a_plugins args)
     @ map (\<lambda>(cname, cfunc). CallableGate cname (cfunc i)) (a_custom_gates args)"
  by (simp add: gate_set_def declared_def build_gates_def callables_at_def split_beta o_def)

section \<open>One iteration\<close>

lemma verification_result_any_files:
  "fst (run_triangular_verification rb rc req out cfg t m fs) =
   fst (run_triangular_verification rb rc req out cfg t m fs')"
  by (simp add: run_triangular_verification_def Let_def split: sum.splits)

lemma verification_trace_saves:
  "saved_metrics (snd (snd (run_triangular_verification rb rc req out cfg t m fs))) = []"
  by (simp add: run_triangular_verification_def Let_def split: sum.splits)

lemma phase3_flow:
  assumes "phase3_triangular_verify args w i im s = (fl, s')" and "im_iteration im = i"
  shows "(fl = Next \<and> verification_returns args w i = Inr False
            \<and> recorded s s' i VERIFY_FAIL \<and> st_converged s' = st_converged s)
       \<or> (fl = Break \<and> verification_returns args w i = Inr True
            \<and> recorded s s' i OUTCOME_PASS \<and> st_converged s')
       \<or> (\<exists>e. fl = Raise e \<and> nothing_recorded s s')"
proof -
  obtain r fs es
    where v: "run_triangular_verification (agent w i AgentB) (agent w i AgentC)
                (a_requirements_file args) (a_output_dir args) (a_config args)
                (a_claude_timeout args) (a_max_retries args) (st_files s) = (r, fs, es)"
    by (metis surj_pair)
  have vr: "verification_returns args w i = r"
    unfolding verification_returns_def
    using v verification_result_any_files
            [of "agent w i AgentB" "agent w i AgentC" "a_requirements_file args"
                "a_output_dir args" "a_config args" "a_claude_timeout args" "a_max_retries args"
                Map.empty "st_files s"]
    by simp
  show ?thesis
  proof (cases r)
    case (Inl e)
    with assms v show ?thesis
      by (auto simp add: phase3_triangular_verify_def nothing_recorded_def)
  next
    case (Inr passed)
    with assms v vr show ?thesis
      by (cases passed)
         (auto simp add: phase3_triangular_verify_def Let_def recorded_def append_iteration_def
               write_feedback_def observe_signal_def)
  qed
qed

lemma phase3_saves:
  assumes "phase3_triangular_verify args w i im s = (fl, s')"
  shows "saved_metrics (st_trace s') = saved_metrics (st_trace s)"
proof -
  obtain r fs es
    where v: "run_triangular_verification (agent w i AgentB) (agent w i AgentC)
                (a_requirements_file args) (a_output_dir args) (a_config args)
                (a_claude_timeout args) (a_max_retries args) (st_files s) = (r, fs, es)"
    by (metis surj_pair)
  have "saved_metrics es = []"
    using verification_trace_saves
            [of "agent w i AgentB" "agent w i AgentC" "a_requirements_file args"
                "a_output_dir args" "a_config args" "a_claude_timeout args" "a_max_retries args"
                "st_files s"] v
    by simp
  with assms v show ?thesis
    by (cases r)
       (auto simp add: phase3_triangular_verify_def Let_def append_iteration_def
             write_feedback_def observe_signal_def split: if_splits)
qed

lemma every_gate_passed_iff:
  "every_gate_passed args w i \<longleftrightarrow>
     fst (fst (run_quality_gates (gate_env w i) (build_gates (a_config args) (a_plugins args))
                 (callables_at args i) (a_use_parallel args) (a_claude_timeout args)))"
  by (simp add: every_gate_passed_def gate_set_def gates_pass_iff)

lemma phase2_flow:
  assumes "phase2_quality_gates args w i im s = (fl, s')" and "im_iteration im = i"
  shows "(fl = Next \<and> \<not> every_gate_passed args w i
            \<and> recorded s s' i GATE_FAIL \<and> st_converged s' = st_converged s)
       \<or> (fl = Next \<and> every_gate_passed args w i \<and> verification_returns args w i = Inr False
            \<and> recorded s s' i VERIFY_FAIL \<and> st_converged s' = st_converged s)
       \<or> (fl = Break \<and> every_gate_passed args w i \<and> verification_returns args w i = Inr True
            \<and> recorded s s' i OUTCOME_PASS \<and> st_converged s')
       \<or> (fl = Break \<and> nothing_recorded s s')
       \<or> (\<exists>e. fl = Raise e \<and> nothing_recorded s s')"
proof -
  obtain gate_pass gate_output gate_results es
    where g: "run_quality_gates (gate_env w i) (build_gates (a_config args) (a_plugins args))
                (callables_at args i) (a_use_parallel args) (a_claude_timeout args)
              = ((gate_pass, gate_output, gate_results), es)"
    by (metis surj_pair)
  have gp: "every_gate_passed args w i = gate_pass"
    using g by (simp add: every_gate_passed_iff)
  let ?s1 = "observe_signal w i Gating (s\<lparr>st_trace := st_trace s @ es\<rparr>)"
  let ?im1 = "im\<lparr>im_gate_results := gate_results\<rparr>"
  show ?thesis
  proof (cases gate_pass)
    case False
    with assms g gp show ?thesis
      by (auto simp add: phase2_quality_gates_def Let_def recorded_def append_iteration_def
            write_feedback_def observe_signal_def)
  next
    case True
    show ?thesis
    proof (cases "st_shutdown ?s1")
      case sd: True
      with True assms g show ?thesis
        by (auto simp add: phase2_quality_gates_def Let_def nothing_recorded_def
              observe_signal_def)
    next
      case sd: False
      with True assms g have p3: "phase3_triangular_verify args w i ?im1 ?s1 = (fl, s')"
        by (simp add: phase2_quality_gates_def Let_def)
      have "im_iteration ?im1 = i" using assms(2) by simp
      from phase3_flow [OF p3 this] True gp show ?thesis
        by (auto simp add: recorded_def nothing_recorded_def observe_signal_def)
    qed
  qed
qed

lemma phase2_saves:
  assumes "phase2_quality_gates args w i im s = (fl, s')"
  shows "saved_metrics (st_trace s') = saved_metrics (st_trace s)"
proof -
  obtain gate_pass gate_output gate_results es
    where g: "run_quality_gates (gate_env w i) (build_gates (a_config args) (a_plugins args))
                (callables_at args i) (a_use_parallel args) (a_claude_timeout args)
              = ((gate_pass, gate_output, gate_results), es)"
    by (metis surj_pair)
  have "list_all gate_effect es"
    using run_quality_gates_effects
            [of "gate_env w i" "build_gates (a_config args) (a_plugins args)"
                "callables_at args i" "a_use_parallel args" "a_claude_timeout args"] g
    by simp
  then have es: "saved_metrics es = []" by (simp add: gate_effects_silent)
  let ?s1 = "observe_signal w i Gating (s\<lparr>st_trace := st_trace s @ es\<rparr>)"
  have s1: "saved_metrics (st_trace ?s1) = saved_metrics (st_trace s)"
    using es by (simp add: observe_signal_def)
  show ?thesis
  proof (cases "gate_pass \<and> \<not> st_shutdown ?s1")
    case True
    with assms g
    have "phase3_triangular_verify args w i (im\<lparr>im_gate_results := gate_results\<rparr>) ?s1 = (fl, s')"
      by (simp add: phase2_quality_gates_def Let_def)
    from phase3_saves [OF this] s1 show ?thesis by simp
  next
    case False
    with assms g es show ?thesis
      by (auto simp add: phase2_quality_gates_def Let_def append_iteration_def
            write_feedback_def observe_signal_def split: if_splits)
  qed
qed

lemma implementation_phase_keeps:
  assumes "run_implementation_phase args w i s = (r, s1)"
  shows "st_metrics s1 = st_metrics s \<and> st_converged s1 = st_converged s
       \<and> st_shutdown s1 = st_shutdown s \<and> st_files s1 = st_files s
       \<and> saved_metrics (st_trace s1) = saved_metrics (st_trace s)"
  using assms
  by (auto simp add: run_implementation_phase_def split: sum.splits if_splits)

lemma run_iteration_flow:
  assumes "run_iteration args w i s = (fl, s')"
  shows "(fl = Next \<and> \<not> every_gate_passed args w i
            \<and> recorded s s' i GATE_FAIL \<and> st_converged s' = st_converged s)
       \<or> (fl = Next \<and> every_gate_passed args w i \<and> verification_returns args w i = Inr False
            \<and> recorded s s' i VERIFY_FAIL \<and> st_converged s' = st_converged s)
       \<or> (fl = Break \<and> every_gate_passed args w i \<and> verification_returns args w i = Inr True
            \<and> recorded s s' i OUTCOME_PASS \<and> st_converged s')
       \<or> (fl = Break \<and> nothing_recorded s s')
       \<or> (\<exists>e. fl = Raise e \<and> nothing_recorded s s')"
proof -
  let ?s = "observe_signal w i Idle s"
  show ?thesis
  proof (cases "st_shutdown ?s")
    case True
    with assms show ?thesis
      by (auto simp add: run_iteration_def Let_def nothing_recorded_def observe_signal_def)
  next
    case False
    obtain r s1 where ip: "run_implementation_phase args w i ?s = (r, s1)"
      by (metis surj_pair)
    note k = implementation_phase_keeps [OF ip]
    show ?thesis
    proof (cases r)
      case (Some e)
      with False assms ip k show ?thesis
        by (auto simp add: run_iteration_def Let_def nothing_recorded_def observe_signal_def)
    next
      case None
      let ?s2 = "observe_signal w i Implementing s1"
      let ?im = "\<lparr>im_iteration = i, im_duration_s = 0, im_phase1_done = True,
                   im_gate_results = [], im_verification_status = SKIPPED, im_outcome = None\<rparr>"
      show ?thesis
      proof (cases "st_shutdown ?s2")
        case True
        with None False assms ip k show ?thesis
          by (auto simp add: run_iteration_def Let_def nothing_recorded_def observe_signal_def)
      next
        case sd: False
        with None False assms ip
        have p2: "phase2_quality_gates args w i ?im ?s2 = (fl, s')"
          by (simp add: run_iteration_def Let_def)
        have "im_iteration ?im = i" by simp
        from phase2_flow [OF p2 this] k show ?thesis
          by (auto simp add: recorded_def nothing_recorded_def observe_signal_def)
      qed
    qed
  qed
qed

lemma run_iteration_saves:
  assumes "run_iteration args w i s = (fl, s')"
  shows "saved_metrics (st_trace s') = saved_metrics (st_trace s)"
proof -
  let ?s = "observe_signal w i Idle s"
  obtain r s1 where ip: "run_implementation_phase args w i ?s = (r, s1)"
    by (metis surj_pair)
  note k = implementation_phase_keeps [OF ip]
  let ?s2 = "observe_signal w i Implementing s1"
  show ?thesis
  proof (cases "\<not> st_shutdown ?s \<and> r = None \<and> \<not> st_shutdown ?s2")
    case True
    with assms ip
    have "phase2_quality_gates args w i
            \<lparr>im_iteration = i, im_duration_s = 0, im_phase1_done = True,
             im_gate_results = [], im_verification_status = SKIPPED, im_outcome = None\<rparr> ?s2
          = (fl, s')"
      by (simp add: run_iteration_def Let_def)
    from phase2_saves [OF this] k show ?thesis by (simp add: observe_signal_def)
  next
    case False
    with assms ip k show ?thesis
      by (auto simp add: run_iteration_def Let_def observe_signal_def split: option.splits if_splits)
  qed
qed


section \<open>The whole run\<close>

lemma iterate_saves:
  "iterate args w its s = (exc, s') \<Longrightarrow> saved_metrics (st_trace s') = saved_metrics (st_trace s)"
proof (induction its arbitrary: s)
  case Nil
  then show ?case by simp
next
  case (Cons i its)
  obtain fl s1 where r: "run_iteration args w i s = (fl, s1)" by (metis surj_pair)
  note sv = run_iteration_saves [OF r]
  show ?case
  proof (cases fl)
    case Next
    with Cons.prems r have "iterate args w its s1 = (exc, s')" by simp
    from Cons.IH [OF this] sv show ?thesis by simp
  next
    case Break
    with Cons.prems r sv show ?thesis by auto
  next
    case (Raise e)
    with Cons.prems r sv show ?thesis by auto
  qed
qed

text \<open>
  While the loop goes on, the run has not converged and the last recorded iteration, if
  there is one, did not pass.
\<close>

lemma iterate_convergence:
  assumes "iterate args w its s = (exc, s')"
      and "\<not> st_converged s" and "\<not> last_is_pass s" and "\<not> last_passed_all args w s"
  shows "(st_converged s' \<longleftrightarrow> last_is_pass s') \<and> (last_is_pass s' \<longleftrightarrow> last_passed_all args w s')"
  using assms
proof (induction its arbitrary: s)
  case Nil
  then show ?case by simp
next
  case (Cons i its)
  obtain fl s1 where r: "run_iteration args w i s = (fl, s1)" by (metis surj_pair)
  from run_iteration_flow [OF r]
  consider
      (gate_fail) "fl = Next" "\<not> every_gate_passed args w i" "recorded s s1 i GATE_FAIL"
                  "st_converged s1 = st_converged s"
    | (verify_fail) "fl = Next" "verification_returns args w i = Inr False"
                  "recorded s s1 i VERIFY_FAIL" "st_converged s1 = st_converged s"
    | (pass) "fl = Break" "every_gate_passed args w i" "verification_returns args w i = Inr True"
                  "recorded s s1 i OUTCOME_PASS" "st_converged s1"
    | (stop) "fl = Break" "nothing_recorded s s1"
    | (raise) e where "fl = Raise e" "nothing_recorded s s1"
    by blast
  then show ?case
  proof cases
    case gate_fail
    have "iterate args w its s1 = (exc, s')" using Cons.prems(1) r gate_fail(1) by simp
    moreover have "\<not> st_converged s1" using gate_fail(4) Cons.prems(2) by simp
    moreover have "\<not> last_is_pass s1" using gate_fail(3) by (simp add: recorded_def last_is_pass_def)
    moreover have "\<not> last_passed_all args w s1"
      using gate_fail(2,3) by (auto simp add: recorded_def last_passed_all_def)
    ultimately show ?thesis by (rule Cons.IH)
  next
    case verify_fail
    have "iterate args w its s1 = (exc, s')" using Cons.prems(1) r verify_fail(1) by simp
    moreover have "\<not> st_converged s1" using verify_fail(4) Cons.prems(2) by simp
    moreover have "\<not> last_is_pass s1" using verify_fail(3) by (simp add: recorded_def last_is_pass_def)
    moreover have "\<not> last_passed_all args w s1"
      using verify_fail(2,3) by (auto simp add: recorded_def last_passed_all_def)
    ultimately show ?thesis by (rule Cons.IH)
  next
    case pass
    have "s' = s1" using Cons.prems(1) r pass(1) by simp
    then show ?thesis using pass by (auto simp add: recorded_def last_is_pass_def last_passed_all_def)
  next
    case stop
    have "s' = s1" using Cons.prems(1) r stop(1) by simp
    then show ?thesis using stop Cons.prems(2,3,4)
      by (auto simp add: nothing_recorded_def last_is_pass_def last_passed_all_def)
  next
    case raise
    have "s' = s1" using Cons.prems(1) r raise(1) by simp
    then show ?thesis using raise Cons.prems(2,3,4)
      by (auto simp add: nothing_recorded_def last_is_pass_def last_passed_all_def)
  qed
qed

lemma initial_state_facts:
  "\<not> st_converged (initial_state w)" "\<not> last_is_pass (initial_state w)"
  "\<not> last_passed_all args w (initial_state w)" "saved_metrics (st_trace (initial_state w)) = []"
  "pm_converged (st_metrics (initial_state w)) = False"
  by (simp_all add: initial_state_def last_is_pass_def last_passed_all_def)

lemma finally_block_facts:
  "st_converged (finally_block args w s) = st_converged s"
  "pm_converged (st_metrics (finally_block args w s)) = st_converged s"
  "pm_iterations (st_metrics (finally_block args w s)) = pm_iterations (st_metrics s)"
  "pm_total_iterations (st_metrics (finally_block args w s)) = int (length (pm_iterations (st_metrics s)))"
  "saved_metrics (st_trace (finally_block args w s)) =
     saved_metrics (st_trace s) @ [PipelineMetrics_to_dict (st_metrics (finally_block args w s))]"
  "verification_calls (st_trace (finally_block args w s)) = verification_calls (st_trace s)"
  by (simp_all add: finally_block_def Let_def)

lemma finally_block_last:
  "last_is_pass (finally_block args w s) = last_is_pass s"
  "last_passed_all args w (finally_block args w s) = last_passed_all args w s"
  by (simp_all add: last_is_pass_def last_passed_all_def finally_block_facts)

text \<open>
  Claim C2. For every run that returns, the value returned is the converged flag of the
  metrics, in the state and in every metrics document written; it is true exactly when
  the last recorded iteration has the outcome Pass; and that is the case exactly when, in
  the iteration of that record, every gate of the gate set passed and the verification
  protocol returned true.
\<close>

theorem converged_iff_last_iteration_passed:
  assumes "run_pipeline args w = (Inr c, s)"
  shows "pm_converged (st_metrics s) = c
       \<and> list_all (\<lambda>j. json_field ''converged'' j = Some (JBool c)) (saved_metrics (st_trace s))
       \<and> (c \<longleftrightarrow> last_is_pass s)
       \<and> (last_is_pass s \<longleftrightarrow> last_passed_all args w s)"
proof (cases "which_claude w")
  case False
  with assms have "c = False" "s = initial_state w"
    by (auto simp add: run_pipeline_def)
  then show ?thesis by (simp add: initial_state_facts)
next
  case True
  obtain exc s1 where it: "iterate args w [1..a_max_iterations args] (initial_state w) = (exc, s1)"
    by (metis surj_pair)
  from True assms it have s: "s = finally_block args w s1" and c: "c = st_converged s1"
    by (auto simp add: run_pipeline_def Let_def finally_block_facts split: option.splits)
  have conv: "(st_converged s1 \<longleftrightarrow> last_is_pass s1) \<and> (last_is_pass s1 \<longleftrightarrow> last_passed_all args w s1)"
    by (rule iterate_convergence [OF it]) (simp_all add: initial_state_facts)
  have sv: "saved_metrics (st_trace s1) = []"
    using iterate_saves [OF it] by (simp add: initial_state_facts)
  have "json_field ''converged'' (PipelineMetrics_to_dict (st_metrics s)) = Some (JBool c)"
    by (simp add: PipelineMetrics_to_dict_def s c finally_block_facts)
  then show ?thesis
    using conv sv by (simp add: s c finally_block_facts finally_block_last)
qed

text \<open>On every path that enters the loop, the metrics are written once, by the final block.\<close>

lemma metrics_saved_once_when_found:
  assumes "which_claude w"
  shows "saved_metrics (st_trace (snd (run_pipeline args w))) =
           [PipelineMetrics_to_dict (st_metrics (snd (run_pipeline args w)))]"
proof -
  obtain exc s1 where it: "iterate args w [1..a_max_iterations args] (initial_state w) = (exc, s1)"
    by (metis surj_pair)
  have s: "snd (run_pipeline args w) = finally_block args w s1"
    using assms it by (simp add: run_pipeline_def Let_def split: option.splits)
  have "saved_metrics (st_trace s1) = []"
    using iterate_saves [OF it] by (simp add: initial_state_facts)
  then show ?thesis by (simp add: s finally_block_facts)
qed

text \<open>
  Claim C1 fails on the path that finds no agent executable: the run returns false before
  the guarded block, so the final block does not run, no metrics document is written and
  the interrupt handlers stay installed.
\<close>

theorem missing_executable_saves_no_metrics:
  assumes "\<not> which_claude w"
  shows "run_pipeline args w = (Inr False, initial_state w)
       \<and> st_trace (snd (run_pipeline args w)) = [InstalledHandlers]
       \<and> saved_metrics (st_trace (snd (run_pipeline args w))) = []"
  using assms by (simp add: run_pipeline_def initial_state_def)

lemma upto_1_3: "[1..3::int] = [1, 2, 3]" by (simp add: upto_rec1)

text \<open>A run without gates whose verification passes converges in its first iteration.\<close>

lemma no_gates_run_converges: "fst (run_pipeline no_gates_args example_world) = Inr True"
  by (simp add: run_pipeline_def no_gates_args_def example_args_def example_world_def upto_1_3
      run_iteration_def observe_signal_def run_implementation_phase_def Let_def
      initial_state_def phase2_quality_gates_def build_gates_def no_gates_config_def
      example_config_def callables_at_def run_quality_gates_def phase3_triangular_verify_def
      run_triangular_verification_def passing_agent_def TRIANGULAR_PASS_MARKER_def
      append_iteration_def finally_block_def)

theorem missing_executable_saves_no_metrics_witness:
  "\<not> which_claude world_without_claude
   \<and> run_pipeline example_args world_without_claude = (Inr False, initial_state world_without_claude)
   \<and> st_trace (snd (run_pipeline example_args world_without_claude)) = [InstalledHandlers]
   \<and> saved_metrics (st_trace (snd (run_pipeline example_args world_without_claude))) = []"
proof -
  have h: "\<not> which_claude world_without_claude"
    by (simp add: world_without_claude_def)
  show ?thesis
    using h missing_executable_saves_no_metrics [OF h, of example_args] by blast
qed

theorem converged_iff_last_iteration_passed_witness:
  "fst (run_pipeline no_gates_args example_world) = Inr True
   \<and> pm_converged (st_metrics (snd (run_pipeline no_gates_args example_world)))
   \<and> last_is_pass (snd (run_pipeline no_gates_args example_world))
   \<and> last_passed_all no_gates_args example_world (snd (run_pipeline no_gates_args example_world))"
proof -
  have "run_pipeline no_gates_args example_world =
          (Inr True, snd (run_pipeline no_gates_args example_world))"
    using no_gates_run_converges by (metis prod.collapse)
  from converged_iff_last_iteration_passed [OF this] no_gates_run_converges show ?thesis by blast
qed


section \<open>A run whose gates always fail\<close>

lemma implementation_phase_verification_calls:
  assumes "run_implementation_phase args w i s = (r, s1)"
  shows "verification_calls (st_trace s1) = verification_calls (st_trace s)"
  using assms
  by (auto simp add: run_implementation_phase_def split: sum.splits if_splits)

lemma failing_gate_iteration:
  assumes "\<not> st_shutdown s" and "\<forall>ph. \<not> signal_arrives w i ph"
      and "fst (run_implementation_phase args w i s) = None"
      and "\<not> every_gate_passed args w i"
  shows "\<exists>s'. run_iteration args w i s = (Next, s') \<and> recorded s s' i GATE_FAIL
              \<and> \<not> st_shutdown s' \<and> st_converged s' = st_converged s
              \<and> verification_calls (st_trace s') = verification_calls (st_trace s)"
proof -
  have idle: "observe_signal w i Idle s = s"
    using assms(2) by (simp add: observe_signal_def)
  obtain s1 where ip: "run_implementation_phase args w i s = (None, s1)"
    using assms(3) by (metis prod.collapse)
  note k = implementation_phase_keeps [OF ip] implementation_phase_verification_calls [OF ip]
  obtain gate_pass gate_output gate_results es
    where g: "run_quality_gates (gate_env w i) (build_gates (a_config args) (a_plugins args))
                (callables_at args i) (a_use_parallel args) (a_claude_timeout args)
              = ((gate_pass, gate_output, gate_results), es)"
    by (metis surj_pair)
  have gp: "\<not> gate_pass"
    using g assms(4) by (simp add: every_gate_passed_iff)
  have "list_all gate_effect es"
    using run_quality_gates_effects
            [of "gate_env w i" "build_gates (a_config args) (a_plugins args)"
                "callables_at args i" "a_use_parallel args" "a_claude_timeout args"] g
    by simp
  then have es: "verification_calls es = []" by (simp add: gate_effects_silent)
  have impl: "observe_signal w i Implementing s1 = s1"
    using assms(2) by (simp add: observe_signal_def)
  have sd1: "\<not> st_shutdown s1" using k(1) assms(1) by simp
  let ?im = "\<lparr>im_iteration = i, im_duration_s = 0, im_phase1_done = True,
               im_gate_results = [], im_verification_status = SKIPPED, im_outcome = None\<rparr>"
  have run: "run_iteration args w i s = phase2_quality_gates args w i ?im s1"
    unfolding run_iteration_def Let_def idle ip using assms(1) sd1 by (simp add: impl)
  have gating: "observe_signal w i Gating (s1\<lparr>st_trace := st_trace s1 @ es\<rparr>)
                  = s1\<lparr>st_trace := st_trace s1 @ es\<rparr>"
    using assms(2) by (simp add: observe_signal_def)
  have p2: "phase2_quality_gates args w i ?im s1 =
              (Next, append_iteration
                       (?im\<lparr>im_gate_results := gate_results, im_outcome := Some GATE_FAIL,
                             im_duration_s := iter_duration w i\<rparr>)
                       (write_feedback gate_output (s1\<lparr>st_trace := st_trace s1 @ es\<rparr>)))"
    unfolding phase2_quality_gates_def g Let_def using gp by (simp add: gating)
  show ?thesis
    unfolding run p2 using k sd1 es
    by (simp add: recorded_def append_iteration_def write_feedback_def)
qed

lemma recorded_append:
  "recorded s s' i oc \<Longrightarrow>
     map im_iteration (pm_iterations (st_metrics s')) = map im_iteration (pm_iterations (st_metrics s)) @ [i]
   \<and> map im_outcome (pm_iterations (st_metrics s')) = map im_outcome (pm_iterations (st_metrics s)) @ [Some oc]"
proof -
  assume r: "recorded s s' i oc"
  then have "pm_iterations (st_metrics s') =
               pm_iterations (st_metrics s) @ [last (pm_iterations (st_metrics s'))]"
    by (metis recorded_def append_butlast_last_id)
  then have "map im_iteration (pm_iterations (st_metrics s')) =
               map im_iteration (pm_iterations (st_metrics s)) @ [im_iteration (last (pm_iterations (st_metrics s')))]"
        and "map im_outcome (pm_iterations (st_metrics s')) =
               map im_outcome (pm_iterations (st_metrics s)) @ [im_outcome (last (pm_iterations (st_metrics s')))]"
    by (metis list.simps(8,9) map_append)+
  with r show ?thesis by (simp add: recorded_def)
qed

text \<open>
  Claim C9. In a run with a budget of three iterations that finds the agent executable,
  in which no interrupt arrives and in which, in each of the iterations 1, 2 and 3, the
  implementation phase completes in the state the run has reached and some gate fails:
  the run returns false, it records the iterations 1, 2 and 3, each with the outcome
  GateFail, its totals say three iterations and no convergence, and the runner is never
  called for the verification.
\<close>

theorem three_failing_iterations:
  assumes "which_claude w" and "a_max_iterations args = 3"
      and "\<forall>i \<in> {1, 2, 3}. fst (run_implementation_phase args w i (state_after args w (i - 1))) = None"
      and "\<forall>i \<in> {1, 2, 3}. \<not> every_gate_passed args w i"
      and "\<forall>i ph. \<not> signal_arrives w i ph"
  shows "fst (run_pipeline args w) = Inr False
       \<and> map im_iteration (pm_iterations (st_metrics (snd (run_pipeline args w)))) = [1, 2, 3]
       \<and> map im_outcome (pm_iterations (st_metrics (snd (run_pipeline args w))))
           = [Some GATE_FAIL, Some GATE_FAIL, Some GATE_FAIL]
       \<and> pm_total_iterations (st_metrics (snd (run_pipeline args w))) = 3
       \<and> \<not> pm_converged (st_metrics (snd (run_pipeline args w)))
       \<and> verification_calls (st_trace (snd (run_pipeline args w))) = []"
proof -
  let ?s0 = "initial_state w"
  have quiet: "\<And>i. \<forall>ph. \<not> signal_arrives w i ph" using assms(5) by simp
  have u0: "[1..0::int] = []" and u1: "[1..1::int] = [1]" and u2: "[1..2::int] = [1, 2]"
    and u3: "[1..3::int] = [1, 2, 3]"
    by (simp_all add: upto_rec1)
  have a0: "state_after args w 0 = ?s0" by (simp add: state_after_def u0)
  have i1: "fst (run_implementation_phase args w 1 ?s0) = None"
    using assms(3) a0 by simp
  have g: "\<not> every_gate_passed args w 1" "\<not> every_gate_passed args w 2"
          "\<not> every_gate_passed args w 3"
    using assms(4) by simp_all
  have sd0: "\<not> st_shutdown ?s0" by (simp add: initial_state_def)
  from failing_gate_iteration [OF sd0 quiet i1 g(1)]
  obtain s1 where r1: "run_iteration args w 1 ?s0 = (Next, s1)" and rec1: "recorded ?s0 s1 1 GATE_FAIL"
    and sd1: "\<not> st_shutdown s1" and c1: "st_converged s1 = st_converged ?s0"
    and v1: "verification_calls (st_trace s1) = verification_calls (st_trace ?s0)"
    by blast
  have a1: "state_after args w 1 = s1" by (simp add: state_after_def u1 r1)
  have i2: "fst (run_implementation_phase args w 2 s1) = None"
    using assms(3) a1 by simp
  from failing_gate_iteration [OF sd1 quiet i2 g(2)]
  obtain s2 where r2: "run_iteration args w 2 s1 = (Next, s2)" and rec2: "recorded s1 s2 2 GATE_FAIL"
    and sd2: "\<not> st_shutdown s2" and c2: "st_converged s2 = st_converged s1"
    and v2: "verification_calls (st_trace s2) = verification_calls (st_trace s1)"
    by blast
  have a2: "state_after args w 2 = s2" by (simp add: state_after_def u2 r1 r2)
  have i3: "fst (run_implementation_phase args w 3 s2) = None"
    using assms(3) a2 by simp
  from failing_gate_iteration [OF sd2 quiet i3 g(3)]
  obtain s3 where r3: "run_iteration args w 3 s2 = (Next, s3)" and rec3: "recorded s2 s3 3 GATE_FAIL"
    and c3: "st_converged s3 = st_converged s2"
    and v3: "verification_calls (st_trace s3) = verification_calls (st_trace s2)"
    by blast
  have it: "iterate args w [1..a_max_iterations args] ?s0 = (None, s3)"
    by (simp add: assms(2) u3 r1 r2 r3)
  have run: "run_pipeline args w = (Inr (st_converged s3), finally_block args w s3)"
    using assms(1) it by (simp add: run_pipeline_def Let_def finally_block_facts)
  have conv: "\<not> st_converged s3"
    using c1 c2 c3 by (simp add: initial_state_def)
  have its0: "pm_iterations (st_metrics ?s0) = []" by (simp add: initial_state_def)
  have m: "map im_iteration (pm_iterations (st_metrics s3)) = [1, 2, 3]"
          "map im_outcome (pm_iterations (st_metrics s3)) = [Some GATE_FAIL, Some GATE_FAIL, Some GATE_FAIL]"
    using recorded_append [OF rec1] recorded_append [OF rec2] recorded_append [OF rec3] its0
    by simp_all
  have len: "length (pm_iterations (st_metrics s3)) = 3"
    using m(1) by (metis length_map length_Cons list.size(3) numeral_3_eq_3)
  have vc: "verification_calls (st_trace s3) = []"
    using v1 v2 v3 by (simp add: initial_state_def)
  show ?thesis
    using conv m len vc by (simp add: run finally_block_facts)
qed

lemma example_implementation_completes:
  "fst (run_implementation_phase example_args example_world i s) = None"
  by (simp add: run_implementation_phase_def example_world_def passing_agent_def)

lemma example_gate_fails: "\<not> every_gate_passed example_args example_world i"
proof -
  have safe: "is_safe_command ''false''"
    by (simp add: is_safe_command_def unsafe_at_def)
  have gs: "gate_set example_args i = [CommandGate ''lint'' ''false'']"
    by (simp add: gate_set_def declared_def build_gates_def callables_at_def example_args_def
        example_config_def)
  have "\<not> passed_at (gate_env example_world i) (a_claude_timeout example_args)
              [CommandGate ''lint'' ''false''] 0"
    by (simp add: passed_at_def run_gate_command_def safe example_world_def
        example_gate_world_def)
  then show ?thesis
    unfolding every_gate_passed_def gs by auto
qed

theorem three_failing_iterations_witness:
  "which_claude example_world \<and> a_max_iterations example_args = 3
   \<and> fst (run_pipeline example_args example_world) = Inr False
   \<and> map im_iteration (pm_iterations (st_metrics (snd (run_pipeline example_args example_world))))
       = [1, 2, 3]
   \<and> map im_outcome (pm_iterations (st_metrics (snd (run_pipeline example_args example_world))))
       = [Some GATE_FAIL, Some GATE_FAIL, Some GATE_FAIL]
   \<and> pm_total_iterations (st_metrics (snd (run_pipeline example_args example_world))) = 3
   \<and> \<not> pm_converged (st_metrics (snd (run_pipeline example_args example_world)))
   \<and> verification_calls (st_trace (snd (run_pipeline example_args example_world))) = []"
proof -
  have 1: "which_claude example_world" by (simp add: example_world_def)
  have 2: "a_max_iterations example_args = 3" by (simp add: example_args_def)
  have 3: "\<forall>i \<in> {1, 2, 3}. fst (run_implementation_phase example_args example_world i
                                    (state_after example_args example_world (i - 1))) = None"
    by (simp add: example_implementation_completes)
  have 4: "\<forall>i \<in> {1, 2, 3}. \<not> every_gate_passed example_args example_world i"
    by (simp add: example_gate_fails)
  have 5: "\<forall>i ph. \<not> signal_arrives example_world i ph" by (simp add: example_world_def)
  show ?thesis
    using 1 2 three_failing_iterations [OF 1 2 3 4 5] by blast
qed

section \<open>An empty gate set\<close>

text \<open>
  Claim C10, as amended. When the three built-in commands are empty and there are no
  plugins and no callables, the gate executor returns success with an empty failure text,
  no results and no effect. The gate phase then writes nothing, the feedback artifact
  included, and hands over to the verification phase in the same state, unless the
  shutdown flag is set by then, in which case the loop is left.
\<close>

theorem empty_gate_set_hands_over_to_verification:
  assumes "lint_cmd (a_config args) = []" and "test_cmd (a_config args) = []"
      and "security_cmd (a_config args) = []" and "a_plugins args = []"
      and "a_custom_gates args = []"
  shows "run_quality_gates (gate_env w i) (build_gates (a_config args) (a_plugins args))
           (callables_at args i) (a_use_parallel args) (a_claude_timeout args)
           = ((True, [], []), [])
       \<and> phase2_quality_gates args w i im s =
           (if st_shutdown s \<or> signal_arrives w i Gating
            then (Break, observe_signal w i Gating s)
            else phase3_triangular_verify args w i (im\<lparr>im_gate_results := []\<rparr>)
                   (observe_signal w i Gating s))
       \<and> st_files (observe_signal w i Gating s) = st_files s
       \<and> st_trace (observe_signal w i Gating s) = st_trace s"
  using assms
  by (simp add: phase2_quality_gates_def run_quality_gates_def build_gates_def callables_at_def
      observe_signal_def Let_def)

theorem empty_gate_set_hands_over_to_verification_witness:
  "lint_cmd (a_config no_gates_args) = [] \<and> test_cmd (a_config no_gates_args) = []
   \<and> security_cmd (a_config no_gates_args) = [] \<and> a_plugins no_gates_args = []
   \<and> a_custom_gates no_gates_args = []
   \<and> run_quality_gates (gate_env example_world 1)
        (build_gates (a_config no_gates_args) (a_plugins no_gates_args))
        (callables_at no_gates_args 1) (a_use_parallel no_gates_args)
        (a_claude_timeout no_gates_args) = ((True, [], []), [])
   \<and> phase2_quality_gates no_gates_args example_world 1 first_iteration_metrics
        (initial_state example_world)
       = phase3_triangular_verify no_gates_args example_world 1
           (first_iteration_metrics\<lparr>im_gate_results := []\<rparr>)
           (observe_signal example_world 1 Gating (initial_state example_world))
   \<and> st_files (observe_signal example_world 1 Gating (initial_state example_world))
       = st_files (initial_state example_world)
   \<and> st_trace (observe_signal example_world 1 Gating (initial_state example_world))
       = st_trace (initial_state example_world)"
proof -
  have h: "lint_cmd (a_config no_gates_args) = []" "test_cmd (a_config no_gates_args) = []"
    "security_cmd (a_config no_gates_args) = []" "a_plugins no_gates_args = []"
    "a_custom_gates no_gates_args = []"
    by (simp_all add: no_gates_args_def no_gates_config_def example_args_def example_config_def)
  have q: "\<not> (st_shutdown (initial_state example_world) \<or> signal_arrives example_world 1 Gating)"
    by (simp add: initial_state_def example_world_def)
  show ?thesis
    using h q
      empty_gate_set_hands_over_to_verification
        [OF h, of example_world 1 first_iteration_metrics "initial_state example_world"]
    by simp
qed

text \<open>
  Claim C10, as stated, fails when an interrupt arrives before the check that follows the
  gate phase: the gate set is empty and the verification would return true, yet the run
  leaves the loop without calling the runner for the verification and records nothing.
\<close>

theorem empty_gate_set_interrupted_counterexample:
  "build_gates (a_config no_gates_args) (a_plugins no_gates_args) = []
   \<and> callables_at no_gates_args 1 = []
   \<and> verification_returns no_gates_args world_interrupted 1 = Inr True
   \<and> fst (run_pipeline no_gates_args world_interrupted) = Inr False
   \<and> verification_calls (st_trace (snd (run_pipeline no_gates_args world_interrupted))) = []
   \<and> pm_iterations (st_metrics (snd (run_pipeline no_gates_args world_interrupted))) = []"
  by (simp add: run_pipeline_def no_gates_args_def example_args_def example_world_def upto_1_3
      world_interrupted_def verification_returns_def
      run_iteration_def observe_signal_def run_implementation_phase_def Let_def
      initial_state_def phase2_quality_gates_def build_gates_def no_gates_config_def
      example_config_def callables_at_def run_quality_gates_def phase3_triangular_verify_def
      run_triangular_verification_def passing_agent_def TRIANGULAR_PASS_MARKER_def
      append_iteration_def finally_block_def)


end
